theory Spec2Isabelle
  imports Main "HOL-Library.List_Lexorder" "HOL-Library.Char_ord" "HOL-Library.Product_Lexorder"
begin

section \<open>Python and ORM primitives the source relies on\<close>

text \<open>
  The application is Django code: \<^verbatim>\<open>dental/models.py\<close> and \<^verbatim>\<open>dental/views.py\<close>.
  Exceptions are values of \<open>error\<close>; a function that can raise returns \<open>error + 'a\<close>.
  A character is a code point below 256 (the identifiers, field names and status values
  of the source are all ASCII). Text columns are compared code point by code point, so
  \<open>order_by\<close> on a text column is the lexicographic order of \<open>char list\<close>. The framework
  runs in its default configuration: every write is committed on its own (autocommit).
\<close>

datatype error =
  ValueError | ValidationError | IntegrityError | OverflowError | KeyError | AttributeError
  | Http404

subsection \<open>\<^verbatim>\<open>str(n)\<close>, \<^verbatim>\<open>f'{n:04d}'\<close>, \<^verbatim>\<open>s[-4:]\<close>, \<^verbatim>\<open>s.strip()\<close>, \<^verbatim>\<open>int(s)\<close>\<close>

fun str_nat :: "nat \<Rightarrow> string" where
  "str_nat n =
     (if n < 10 then [''0123456789'' ! n]
      else str_nat (n div 10) @ [''0123456789'' ! (n mod 10)])"

declare str_nat.simps [simp del]

definition str_int :: "int \<Rightarrow> string" where
  "str_int i = (if i < 0 then CHR ''-'' # str_nat (nat (- i)) else str_nat (nat i))"

definition zfill :: "nat \<Rightarrow> string \<Rightarrow> string" where
  "zfill w s = replicate (w - length s) CHR ''0'' @ s"

definition fmt_04d :: "int \<Rightarrow> string" where
  \<comment> \<open>the format spec \<^verbatim>\<open>04d\<close>: sign-aware zero padding to a minimum width of 4, no truncation\<close>
  "fmt_04d n =
     (if n < 0 then CHR ''-'' # zfill 3 (str_nat (nat (- n))) else zfill 4 (str_nat (nat n)))"

definition last4 :: "string \<Rightarrow> string" where
  \<comment> \<open>the slice \<^verbatim>\<open>s[-4:]\<close>: the whole string when it is shorter than 4\<close>
  "last4 s = drop (length s - 4) s"

definition startswith :: "string \<Rightarrow> string \<Rightarrow> bool" where
  "startswith pre s = (take (length pre) s = pre)"

definition is_space :: "char \<Rightarrow> bool" where
  \<comment> \<open>what \<^verbatim>\<open>str.strip()\<close> removes: the white space of Unicode, here below 256\<close>
  "is_space c = (c \<in> set [CHR 0x09, CHR 0x0A, CHR 0x0B, CHR 0x0C, CHR 0x0D,
                           CHR 0x1C, CHR 0x1D, CHR 0x1E, CHR 0x1F, CHR 0x20,
                           CHR 0x85, CHR 0xA0])"

definition is_int_space :: "char \<Rightarrow> bool" where
  \<comment> \<open>what \<^verbatim>\<open>int()\<close> skips around the number: tab to carriage return, the space, and
     the non-ASCII spaces; not the separators \<^verbatim>\<open>0x1C\<close> to \<^verbatim>\<open>0x1F\<close>\<close>
  "is_int_space c = (c \<in> set [CHR 0x09, CHR 0x0A, CHR 0x0B, CHR 0x0C, CHR 0x0D, CHR 0x20,
                               CHR 0x85, CHR 0xA0])"

definition strip :: "string \<Rightarrow> string" where
  "strip s = rev (dropWhile is_space (rev (dropWhile is_space s)))"

definition is_digit :: "char \<Rightarrow> bool" where
  "is_digit c = (c \<in> set ''0123456789'')"

definition digit_val :: "char \<Rightarrow> nat" where
  "digit_val c = of_char c - 48"

text \<open>
  The digit part of an integer literal: decimal digits, where single underscores may
  stand between two digits. The accumulator is the value read so far.
\<close>

fun digits_val :: "nat \<Rightarrow> string \<Rightarrow> nat option" where
  "digits_val acc [] = None"
| "digits_val acc [c] = (if is_digit c then Some (10 * acc + digit_val c) else None)"
| "digits_val acc (c # d # cs) =
     (if \<not> is_digit c then None
      else if d = CHR ''_'' then digits_val (10 * acc + digit_val c) cs
      else digits_val (10 * acc + digit_val c) (d # cs))"

definition int_literal :: "string \<Rightarrow> nat option" where
  \<comment> \<open>the digit part, refused beyond 4300 digits (the interpreter's default limit for the
     conversion of a string to an integer)\<close>
  "int_literal ds = (if 4300 < length (filter is_digit ds) then None else digits_val 0 ds)"

definition py_int :: "string \<Rightarrow> int option" where
  \<comment> \<open>\<^verbatim>\<open>int(s)\<close>: surrounding white space, an optional sign, digits; \<open>None\<close> is ValueError\<close>
  "py_int s =
     (case rev (dropWhile is_int_space (rev (dropWhile is_int_space s))) of
        [] \<Rightarrow> None
      | c # cs \<Rightarrow>
          if c = CHR ''-'' then map_option (\<lambda>n. - int n) (int_literal cs)
          else if c = CHR ''+'' then map_option int (int_literal cs)
          else map_option int (int_literal (c # cs)))"

subsection \<open>Query sets\<close>

definition fresh_pk :: "nat list \<Rightarrow> nat" where
  \<comment> \<open>the primary key the database gives a new row: one not used in the table\<close>
  "fresh_pk pks = Suc (fold max pks 0)"

definition order_by_last :: "('a \<Rightarrow> 'k::linorder) \<Rightarrow> 'a list \<Rightarrow> 'a option" where
  \<comment> \<open>\<^verbatim>\<open>qs.order_by(f).last()\<close>\<close>
  "order_by_last f rows = (case sort_key f rows of [] \<Rightarrow> None | ys \<Rightarrow> Some (last ys))"


section \<open>\<^verbatim>\<open>models.py\<close>: Patient and Invoice identifiers\<close>

text \<open>
  Only the columns that \<open>save\<close> reads or writes are named; every other column of the row
  travels in the record's extension. \<open>p_pk\<close> is \<open>None\<close> until the row has been inserted.
\<close>

record patient =
  p_pk :: "nat option"
  patient_id :: string

record invoice =
  i_pk :: "nat option"
  invoice_number :: string

text \<open>
  \<^verbatim>\<open>super().save()\<close>: an instance without primary key is inserted, one with a primary key
  replaces its row (or is inserted when that row is gone). The column is
  \<^verbatim>\<open>unique=True\<close>, so a second row with the same identifier raises IntegrityError.
\<close>

definition Patient_super_save ::
  "'a patient_scheme \<Rightarrow> 'a patient_scheme list \<Rightarrow> error + ('a patient_scheme \<times> 'a patient_scheme list)"
where
  "Patient_super_save self tbl =
     (case p_pk self of
        None \<Rightarrow>
          if \<exists>q \<in> set tbl. patient_id q = patient_id self then Inl IntegrityError
          else (let row = self\<lparr>p_pk := Some (fresh_pk (concat (map (\<lambda>q. case p_pk q of None \<Rightarrow> [] | Some k \<Rightarrow> [k]) tbl)))\<rparr>
                in Inr (row, tbl @ [row]))
      | Some k \<Rightarrow>
          if \<exists>q \<in> set tbl. p_pk q \<noteq> Some k \<and> patient_id q = patient_id self then Inl IntegrityError
          else if \<exists>q \<in> set tbl. p_pk q = Some k
            then Inr (self, map (\<lambda>q. if p_pk q = Some k then self else q) tbl)
          else Inr (self, tbl @ [self]))"

definition Invoice_super_save ::
  "'a invoice_scheme \<Rightarrow> 'a invoice_scheme list \<Rightarrow> error + ('a invoice_scheme \<times> 'a invoice_scheme list)"
where
  "Invoice_super_save self tbl =
     (case i_pk self of
        None \<Rightarrow>
          if \<exists>q \<in> set tbl. invoice_number q = invoice_number self then Inl IntegrityError
          else (let row = self\<lparr>i_pk := Some (fresh_pk (concat (map (\<lambda>q. case i_pk q of None \<Rightarrow> [] | Some k \<Rightarrow> [k]) tbl)))\<rparr>
                in Inr (row, tbl @ [row]))
      | Some k \<Rightarrow>
          if \<exists>q \<in> set tbl. i_pk q \<noteq> Some k \<and> invoice_number q = invoice_number self then Inl IntegrityError
          else if \<exists>q \<in> set tbl. i_pk q = Some k
            then Inr (self, map (\<lambda>q. if i_pk q = Some k then self else q) tbl)
          else Inr (self, tbl @ [self]))"

text \<open>
  \<^verbatim>\<open>Patient.save\<close> (models.py, lines 50 to 67). \<open>year\<close> is \<^verbatim>\<open>timezone.now().year\<close>; the
  identifier is unset when it is the empty string (\<^verbatim>\<open>not self.patient_id\<close>).
\<close>

definition Patient_save ::
  "int \<Rightarrow> 'a patient_scheme \<Rightarrow> 'a patient_scheme list \<Rightarrow> error + ('a patient_scheme \<times> 'a patient_scheme list)"
where
  "Patient_save year self tbl =
     (if patient_id self = [] then
        (case order_by_last patient_id
                (filter (\<lambda>p. startswith (''P'' @ str_int year) (patient_id p)) tbl) of
           Some last_patient \<Rightarrow>
             (case py_int (last4 (patient_id last_patient)) of
                None \<Rightarrow> Inl ValueError
              | Some last_number \<Rightarrow>
                  Patient_super_save
                    (self\<lparr>patient_id := ''P'' @ str_int year @ fmt_04d (last_number + 1)\<rparr>) tbl)
         | None \<Rightarrow>
             Patient_super_save (self\<lparr>patient_id := ''P'' @ str_int year @ fmt_04d 1\<rparr>) tbl)
      else Patient_super_save self tbl)"

text \<open>\<^verbatim>\<open>Invoice.save\<close> (models.py, lines 286 to 302).\<close>

definition Invoice_save ::
  "int \<Rightarrow> 'a invoice_scheme \<Rightarrow> 'a invoice_scheme list \<Rightarrow> error + ('a invoice_scheme \<times> 'a invoice_scheme list)"
where
  "Invoice_save year self tbl =
     (if invoice_number self = [] then
        (case order_by_last invoice_number
                (filter (\<lambda>p. startswith (''INV'' @ str_int year) (invoice_number p)) tbl) of
           Some last_invoice \<Rightarrow>
             (case py_int (last4 (invoice_number last_invoice)) of
                None \<Rightarrow> Inl ValueError
              | Some last_number \<Rightarrow>
                  Invoice_super_save
                    (self\<lparr>invoice_number := ''INV'' @ str_int year @ fmt_04d (last_number + 1)\<rparr>) tbl)
         | None \<Rightarrow>
             Invoice_super_save (self\<lparr>invoice_number := ''INV'' @ str_int year @ fmt_04d 1\<rparr>) tbl)
      else Invoice_super_save self tbl)"

text \<open>
  The words of the specification: the identifiers already assigned with a prefix, of
  which the generator continues the highest.
\<close>

definition ids_with_prefix :: "string \<Rightarrow> string list \<Rightarrow> string set" where
  "ids_with_prefix pre ids = set (filter (startswith pre) ids)"


section \<open>\<^verbatim>\<open>models.py\<close>: the tables of the chart and of the periodontal exams\<close>

text \<open>
  A date is (year, month, day), ordered lexicographically, which is the order of
  calendar dates. Time stamps (\<^verbatim>\<open>auto_now\<close>, \<^verbatim>\<open>auto_now_add\<close>) are natural numbers; the
  time of a request is a parameter of the view. Foreign keys hold the primary key of
  the row they point to. The primary key of a measurement row is never read by the
  views and is left out.
\<close>

type_synonym date = "nat \<times> nat \<times> nat"

record tooth =
  t_pk :: nat
  t_patient :: nat
  t_tooth_number :: int
  t_status :: string
  t_notes :: string
  t_last_updated :: nat

record periodontal_exam =
  e_pk :: nat
  e_patient :: nat
  exam_date :: date
  e_dentist :: "nat option"
  e_notes :: string
  e_created_at :: nat

record tooth_measurement =
  m_exam :: nat
  tooth_number :: int
  position :: string
  surface :: string
  pocket_depth :: int
  bleeding :: bool
  calculus :: bool
  mobility :: "int option"

record database =
  patients :: "patient list"
  teeth :: "tooth list"
  exams :: "periodontal_exam list"
  measurements :: "tooth_measurement list"

definition TOOTH_STATUS_CHOICES :: "(string \<times> string) list" where
  "TOOTH_STATUS_CHOICES =
     [(''healthy'', ''Healthy''), (''cavity'', ''Cavity''), (''filled'', ''Filled''),
      (''crown'', ''Crown''), (''root_canal'', ''Root Canal''), (''missing'', ''Missing''),
      (''implant'', ''Implant''), (''bridge'', ''Bridge'')]"

definition get_status_display :: "tooth \<Rightarrow> string" where
  \<comment> \<open>the label of the status, or the status itself when it is no choice\<close>
  "get_status_display t =
     (case map_of TOOTH_STATUS_CHOICES (t_status t) of Some label \<Rightarrow> label | None \<Rightarrow> t_status t)"

text \<open>
  \<^verbatim>\<open>Tooth.objects.create\<close> and \<^verbatim>\<open>ToothMeasurement.objects.create\<close>: the row is written at
  once (the source opens no transaction, each write is committed on its own), and the
  \<^verbatim>\<open>unique_together\<close> constraint of the table raises IntegrityError. \<^verbatim>\<open>objects.create\<close>
  runs no field validation, so any integer reaches the database; the integer column of
  the backend holds a bounded range only (64 bit signed on SQLite, 32 bit signed on
  PostgreSQL and MySQL) and the insert of a depth outside of it raises before
  anything is written. Which backend runs is not part of the source: the range is the
  parameter \<open>col_ok\<close>, and the error is written OverflowError, the name it has on
  SQLite. Tooth numbers come from the fixed list and fit every backend.
\<close>

definition Tooth_create :: "nat \<Rightarrow> nat \<Rightarrow> int \<Rightarrow> string \<Rightarrow> tooth list \<Rightarrow> error + tooth list" where
  "Tooth_create now patient tooth_num st tbl =
     (if \<exists>t \<in> set tbl. t_patient t = patient \<and> t_tooth_number t = tooth_num
      then Inl IntegrityError
      else Inr (tbl @ [\<lparr>t_pk = fresh_pk (map t_pk tbl), t_patient = patient,
                         t_tooth_number = tooth_num, t_status = st, t_notes = [],
                         t_last_updated = now\<rparr>]))"

definition ToothMeasurement_create ::
  "(int \<Rightarrow> bool) \<Rightarrow> tooth_measurement \<Rightarrow> tooth_measurement list
     \<Rightarrow> error + tooth_measurement list" where
  "ToothMeasurement_create col_ok m tbl =
     (if \<not> col_ok (pocket_depth m) then Inl OverflowError
      else if \<exists>x \<in> set tbl. m_exam x = m_exam m \<and> tooth_number x = tooth_number m
                        \<and> position x = position m \<and> surface x = surface m
      then Inl IntegrityError
      else Inr (tbl @ [m]))"

section \<open>\<^verbatim>\<open>views.py\<close>\<close>

subsection \<open>Requests and the canonical enumerations\<close>

text \<open>
  A request carries its method, the logged-in user (\<open>None\<close> for an anonymous visitor,
  whom \<^verbatim>\<open>@login_required\<close> sends to the login page), the form fields and, for the JSON
  endpoint, the result of \<^verbatim>\<open>json.loads(request.body)\<close>. Of a JSON object only the two
  members the view reads are kept, each a string or missing/null; members of other JSON
  types are outside this model.
\<close>

datatype json_body = NotJson | NotObject | Object "string option" "string option"

record request =
  http_method :: string
  user :: "nat option"
  POST :: "string \<rightharpoonup> string"
  body :: json_body

definition py_range :: "int \<Rightarrow> int \<Rightarrow> int list" where
  \<comment> \<open>\<^verbatim>\<open>list(range(a, b))\<close>\<close>
  "py_range a b = [a..b - 1]"

definition py_range_down :: "int \<Rightarrow> int \<Rightarrow> int list" where
  \<comment> \<open>\<^verbatim>\<open>list(range(a, b, -1))\<close>\<close>
  "py_range_down a b = rev [b + 1..a]"

definition tooth_numbers :: "int list" where
  "tooth_numbers =
     py_range_down 18 10 @ py_range 21 29 @ py_range_down 48 40 @ py_range 31 39"

definition surfaces :: "string list" where
  "surfaces = [''buccal'', ''lingual'']"

definition positions :: "string list" where
  "positions = [''mesial'', ''middle'', ''distal'']"

definition combinations :: "(int \<times> string \<times> string) list" where
  \<comment> \<open>the three nested \<^verbatim>\<open>for\<close> loops of the creation view, in the order they run\<close>
  "combinations =
     concat (map (\<lambda>tooth_num.
       concat (map (\<lambda>surf. map (\<lambda>pos. (tooth_num, surf, pos)) positions) surfaces))
       tooth_numbers)"

definition depth_field :: "int \<times> string \<times> string \<Rightarrow> string" where
  "depth_field k = (case k of (tooth_num, surf, pos) \<Rightarrow>
     ''depth_'' @ str_int tooth_num @ ''_'' @ surf @ ''_'' @ pos)"

definition bleeding_field :: "int \<times> string \<times> string \<Rightarrow> string" where
  "bleeding_field k = (case k of (tooth_num, surf, pos) \<Rightarrow>
     ''bleeding_'' @ str_int tooth_num @ ''_'' @ surf @ ''_'' @ pos)"

definition calculus_field :: "int \<times> string \<times> string \<Rightarrow> string" where
  "calculus_field k = (case k of (tooth_num, surf, pos) \<Rightarrow>
     ''calculus_'' @ str_int tooth_num @ ''_'' @ surf @ ''_'' @ pos)"

subsection \<open>\<^verbatim>\<open>patient_detail\<close>: the chart and its lazy initialisation (lines 112 to 132)\<close>

fun create_teeth :: "nat \<Rightarrow> nat \<Rightarrow> int list \<Rightarrow> tooth list \<Rightarrow> tooth list \<times> error option" where
  "create_teeth now patient [] tbl = (tbl, None)"
| "create_teeth now patient (tooth_num # rest) tbl =
     (case Tooth_create now patient tooth_num ''healthy'' tbl of
        Inl e \<Rightarrow> (tbl, Some e)
      | Inr tbl' \<Rightarrow> create_teeth now patient rest tbl')"

definition teeth_of :: "nat \<Rightarrow> database \<Rightarrow> tooth list" where
  \<comment> \<open>\<^verbatim>\<open>patient.teeth.all()\<close>, in the table's default order\<close>
  "teeth_of patient db = sort_key t_tooth_number (filter (\<lambda>t. t_patient t = patient) (teeth db))"

definition teeth_dict_of :: "tooth list \<Rightarrow> (int \<rightharpoonup> tooth)" where
  "teeth_dict_of ts = fold (\<lambda>t d. d(t_tooth_number t \<mapsto> t)) ts Map.empty"

datatype chart_response =
    Chart_login
  | Chart_404
  | Chart_raised error
  | Chart_page "int \<rightharpoonup> tooth" bool

text \<open>
  Of the page context the chart (\<^verbatim>\<open>teeth_dict\<close>, \<^verbatim>\<open>has_dental_chart\<close>) is kept; the lists
  of appointments, treatments, invoices, documents and exams are read-only queries on
  other tables.
\<close>

definition patient_detail :: "nat \<Rightarrow> request \<Rightarrow> nat \<Rightarrow> database \<Rightarrow> database \<times> chart_response" where
  "patient_detail now req patient_pk db =
     (if user req = None then (db, Chart_login)
      else if \<not> (\<exists>p \<in> set (patients db). p_pk p = Some patient_pk) then (db, Chart_404)
      else if teeth_of patient_pk db = [] then
        (case create_teeth now patient_pk tooth_numbers (teeth db) of
           (tbl, Some e) \<Rightarrow> (db\<lparr>teeth := tbl\<rparr>, Chart_raised e)
         | (tbl, None) \<Rightarrow>
             (let db' = db\<lparr>teeth := tbl\<rparr>
              in (db', Chart_page (teeth_dict_of (teeth_of patient_pk db'))
                                  (teeth_of patient_pk db' \<noteq> []))))
      else (db, Chart_page (teeth_dict_of (teeth_of patient_pk db)) True))"

subsection \<open>\<^verbatim>\<open>tooth_update\<close> (lines 284 to 328)\<close>

text \<open>
  The answers of the endpoint: the redirect to the login page, 405 for another method
  than POST, a JSON failure with its status code and message, the JSON failure with
  status 500 that \<^verbatim>\<open>except Exception\<close> builds from a caught exception (\<open>Update_500\<close>, the
  message being the text of that exception), and the JSON success with tooth number,
  status, display label and notes.
\<close>

datatype update_response =
    Update_login
  | Update_405
  | Update_error nat string
  | Update_500 error
  | Update_ok int string string string

definition tooth_update :: "nat \<Rightarrow> request \<Rightarrow> nat \<Rightarrow> database \<Rightarrow> database \<times> update_response" where
  "tooth_update now req tooth_id db =
     (if user req = None then (db, Update_login)
      else if http_method req \<noteq> ''POST'' then (db, Update_405)
      else case find (\<lambda>t. t_pk t = tooth_id) (teeth db) of
        None \<Rightarrow> (db, Update_500 Http404)
      | Some tooth \<Rightarrow>
         (case body req of
            NotJson \<Rightarrow> (db, Update_error 400 ''Invalid JSON data'')
          | NotObject \<Rightarrow> (db, Update_500 AttributeError)
          | Object new_status notes \<Rightarrow>
             (case new_status of
                None \<Rightarrow> (db, Update_error 400 ''Invalid tooth status'')
              | Some st \<Rightarrow>
                 if st \<notin> set (map fst TOOTH_STATUS_CHOICES)
                 then (db, Update_error 400 ''Invalid tooth status'')
                 else
                   (let tooth1 = tooth\<lparr>t_status := st\<rparr>;
                        tooth2 = (case notes of
                                    None \<Rightarrow> tooth1
                                  | Some n \<Rightarrow> if n \<noteq> [] then tooth1\<lparr>t_notes := n\<rparr> else tooth1);
                        saved = tooth2\<lparr>t_last_updated := now\<rparr>
                    in (db\<lparr>teeth := map (\<lambda>t. if t_pk t = tooth_id then saved else t) (teeth db)\<rparr>,
                        Update_ok (t_tooth_number saved) (t_status saved)
                                  (get_status_display saved) (t_notes saved))))))"

subsection \<open>\<^verbatim>\<open>periodontal_exam_create\<close> (lines 388 to 448)\<close>

text \<open>
  \<^verbatim>\<open>PeriodontalExam.objects.create\<close>: the date column is not nullable, so a missing
  \<^verbatim>\<open>exam_date\<close> field raises IntegrityError; a string that is no date raises
  ValidationError when the column converts it. That conversion belongs to the framework
  and is the parameter \<open>to_date\<close>.
\<close>

definition PeriodontalExam_create ::
  "(string \<Rightarrow> date option) \<Rightarrow> nat \<Rightarrow> nat \<Rightarrow> string option \<Rightarrow> nat option \<Rightarrow> string
     \<Rightarrow> periodontal_exam list \<Rightarrow> error + (periodontal_exam \<times> periodontal_exam list)"
where
  "PeriodontalExam_create to_date now patient date_field dentist notes tbl =
     (case date_field of
        None \<Rightarrow> Inl IntegrityError
      | Some s \<Rightarrow>
         (case to_date s of
            None \<Rightarrow> Inl ValidationError
          | Some d \<Rightarrow>
             (let exam = \<lparr>e_pk = fresh_pk (map e_pk tbl), e_patient = patient, exam_date = d,
                          e_dentist = dentist, e_notes = notes, e_created_at = now\<rparr>
              in Inr (exam, tbl @ [exam]))))"

text \<open>
  The body of the three nested loops, run over \<open>combinations\<close>. The exception of
  \<^verbatim>\<open>int(depth)\<close> or of the insert leaves the loop; the rows written before stay.
  \<open>col_ok\<close> is the range of the integer column.
\<close>

fun process_measurements ::
  "(int \<Rightarrow> bool) \<Rightarrow> (string \<rightharpoonup> string) \<Rightarrow> nat \<Rightarrow> (int \<times> string \<times> string) list
     \<Rightarrow> tooth_measurement list \<Rightarrow> tooth_measurement list \<times> error option"
where
  "process_measurements col_ok post exam [] tbl = (tbl, None)"
| "process_measurements col_ok post exam (k # rest) tbl =
     (case post (depth_field k) of
        None \<Rightarrow> process_measurements col_ok post exam rest tbl
      | Some depth \<Rightarrow>
          if depth \<noteq> [] \<and> strip depth \<noteq> [] then
            (let bleeding_on = (post (bleeding_field k) = Some ''on'');
                 calculus_on = (post (calculus_field k) = Some ''on'')
             in case py_int depth of
                  None \<Rightarrow> (tbl, Some ValueError)
                | Some d \<Rightarrow>
                   (case ToothMeasurement_create col_ok
                           \<lparr>m_exam = exam, tooth_number = fst k, position = snd (snd k),
                            surface = fst (snd k), pocket_depth = d, bleeding = bleeding_on,
                            calculus = calculus_on, mobility = None\<rparr> tbl of
                      Inl e \<Rightarrow> (tbl, Some e)
                    | Inr tbl' \<Rightarrow> process_measurements col_ok post exam rest tbl'))
          else process_measurements col_ok post exam rest tbl)"

datatype create_response =
    Create_login
  | Create_404
  | Create_raised error
  | Create_form
  | Create_redirect nat

definition periodontal_exam_create ::
  "(int \<Rightarrow> bool) \<Rightarrow> (string \<Rightarrow> date option) \<Rightarrow> nat \<Rightarrow> request \<Rightarrow> nat \<Rightarrow> database
     \<Rightarrow> database \<times> create_response"
where
  "periodontal_exam_create col_ok to_date now req patient_pk db =
     (if user req = None then (db, Create_login)
      else if \<not> (\<exists>p \<in> set (patients db). p_pk p = Some patient_pk) then (db, Create_404)
      else if http_method req = ''POST'' then
        (case PeriodontalExam_create to_date now patient_pk (POST req ''exam_date'') (user req)
                (case POST req ''notes'' of None \<Rightarrow> [] | Some n \<Rightarrow> n) (exams db) of
           Inl e \<Rightarrow> (db, Create_raised e)
         | Inr (exam, tbl) \<Rightarrow>
            (case process_measurements col_ok (POST req) (e_pk exam) combinations
                    (measurements db) of
               (ms, Some e) \<Rightarrow> (db\<lparr>exams := tbl, measurements := ms\<rparr>, Create_raised e)
             | (ms, None) \<Rightarrow>
                 (db\<lparr>exams := tbl, measurements := ms\<rparr>, Create_redirect (e_pk exam))))
      else (db, Create_form))"

subsection \<open>\<^verbatim>\<open>periodontal_exam_detail\<close> (lines 331 to 385)\<close>

text \<open>
  The grid is the nested dictionary of the view: tooth number, then surface, then
  position; a slot holds \<open>None\<close> or a measurement row. Assigning to a surface that is no
  key of the tooth's dictionary raises KeyError.
\<close>

type_synonym grid = "int \<rightharpoonup> (string \<rightharpoonup> (string \<rightharpoonup> tooth_measurement option))"

definition empty_tooth :: "string \<rightharpoonup> (string \<rightharpoonup> tooth_measurement option)" where
  "empty_tooth =
     [''buccal'' \<mapsto> [''mesial'' \<mapsto> None, ''middle'' \<mapsto> None, ''distal'' \<mapsto> None],
      ''lingual'' \<mapsto> [''mesial'' \<mapsto> None, ''middle'' \<mapsto> None, ''distal'' \<mapsto> None]]"

fun organize :: "tooth_measurement list \<Rightarrow> grid \<Rightarrow> error + grid" where
  "organize [] g = Inr g"
| "organize (m # ms) g =
     (let g1 = (if g (tooth_number m) = None then g(tooth_number m \<mapsto> empty_tooth) else g)
      in case g1 (tooth_number m) of
           None \<Rightarrow> Inl KeyError
         | Some by_surface \<Rightarrow>
            (case by_surface (surface m) of
               None \<Rightarrow> Inl KeyError
             | Some by_position \<Rightarrow>
                 organize ms
                   (g1(tooth_number m \<mapsto>
                         by_surface(surface m \<mapsto> by_position(position m \<mapsto> Some m))))))"

definition measurements_of :: "nat \<Rightarrow> database \<Rightarrow> tooth_measurement list" where
  \<comment> \<open>\<^verbatim>\<open>exam.measurements.all()\<close> ordered by tooth number, surface, position\<close>
  "measurements_of exam db =
     sort_key (\<lambda>m. (tooth_number m, surface m, position m))
       (filter (\<lambda>m. m_exam m = exam) (measurements db))"




text \<open>
  Reading a slot of the grid the way the page does: a tooth that is no key, a slot
  that holds \<open>None\<close> and a slot that is missing all show as absent.
\<close>

definition slot :: "grid \<Rightarrow> int \<times> string \<times> string \<Rightarrow> tooth_measurement option" where
  "slot g k =
     (case g (fst k) of
        None \<Rightarrow> None
      | Some by_surface \<Rightarrow>
         (case by_surface (fst (snd k)) of
            None \<Rightarrow> None
          | Some by_position \<Rightarrow>
             (case by_position (snd (snd k)) of None \<Rightarrow> None | Some v \<Rightarrow> v)))"

text \<open>
  The submission read off the form, in the words of the specification: the entry of a
  combination is its depth with the two flags, present when the depth field is neither
  missing nor blank and is an integer.
\<close>

definition submitted :: "(string \<rightharpoonup> string) \<Rightarrow> int \<times> string \<times> string \<Rightarrow> bool" where
  "submitted post k =
     (case post (depth_field k) of None \<Rightarrow> False | Some d \<Rightarrow> d \<noteq> [] \<and> strip d \<noteq> [])"

definition entry :: "(string \<rightharpoonup> string) \<Rightarrow> int \<times> string \<times> string \<Rightarrow> (int \<times> bool \<times> bool) option" where
  "entry post k =
     (case post (depth_field k) of
        None \<Rightarrow> None
      | Some d \<Rightarrow>
          if d \<noteq> [] \<and> strip d \<noteq> [] then
            map_option (\<lambda>n. (n, post (bleeding_field k) = Some ''on'',
                                post (calculus_field k) = Some ''on'')) (py_int d)
          else None)"

definition row_of :: "nat \<Rightarrow> int \<times> string \<times> string \<Rightarrow> int \<times> bool \<times> bool \<Rightarrow> tooth_measurement" where
  "row_of exam k v =
     \<lparr>m_exam = exam, tooth_number = fst k, position = snd (snd k), surface = fst (snd k),
      pocket_depth = fst v, bleeding = fst (snd v), calculus = snd (snd v), mobility = None\<rparr>"

definition key_of :: "tooth_measurement \<Rightarrow> int \<times> string \<times> string" where
  "key_of m = (tooth_number m, surface m, position m)"

definition malformed :: "(string \<rightharpoonup> string) \<Rightarrow> int \<times> string \<times> string \<Rightarrow> bool" where
  \<comment> \<open>a depth was submitted for the combination and is no integer\<close>
  "malformed post k = (submitted post k \<and> entry post k = None)"

definition out_of_range ::
  "(int \<Rightarrow> bool) \<Rightarrow> (string \<rightharpoonup> string) \<Rightarrow> int \<times> string \<times> string \<Rightarrow> bool" where
  \<comment> \<open>the depth of the combination is an integer that the integer column does not hold\<close>
  "out_of_range col_ok post k =
     (case entry post k of None \<Rightarrow> False | Some v \<Rightarrow> \<not> col_ok (fst v))"

definition refused ::
  "(int \<Rightarrow> bool) \<Rightarrow> (string \<rightharpoonup> string) \<Rightarrow> int \<times> string \<times> string \<Rightarrow> bool" where
  "refused col_ok post k = (malformed post k \<or> out_of_range col_ok post k)"

definition refusal ::
  "(int \<Rightarrow> bool) \<Rightarrow> (string \<rightharpoonup> string) \<Rightarrow> (int \<times> string \<times> string) list \<Rightarrow> error option" where
  \<comment> \<open>the exception of the first refused combination of the list, if there is one\<close>
  "refusal col_ok post ks =
     (case find (refused col_ok post) ks of
        None \<Rightarrow> None
      | Some k \<Rightarrow> Some (if malformed post k then ValueError else OverflowError))"

definition rows_of ::
  "(string \<rightharpoonup> string) \<Rightarrow> nat \<Rightarrow> (int \<times> string \<times> string) list \<Rightarrow> tooth_measurement list" where
  \<comment> \<open>one row for each combination of the list that has an entry, in the order of the list\<close>
  "rows_of post exam ks = List.map_filter (\<lambda>k. map_option (row_of exam k) (entry post k)) ks"

text \<open>
  Two properties of a stored database that the framework's constraints and this
  application's own writes maintain: every measurement row belongs to an exam of the
  exam table (the foreign key), and its surface is one of the two surfaces.
\<close>

definition foreign_keys_ok :: "database \<Rightarrow> bool" where
  "foreign_keys_ok db = (\<forall>m \<in> set (measurements db). m_exam m \<in> e_pk ` set (exams db))"

definition surfaces_ok :: "database \<Rightarrow> bool" where
  "surfaces_ok db = (\<forall>m \<in> set (measurements db). surface m \<in> set surfaces)"

subsection \<open>A concrete database and two submissions\<close>

text \<open>
  One patient without exams; an integer column of 64 bits; a date conversion that knows
  two dates; a submission with
  a depth and a bleeding flag for 18 buccal mesial, a blank depth for 18 buccal middle
  and a depth with a calculus flag for 17 lingual distal; and a submission whose second
  depth is no integer.
\<close>

definition example_col_ok :: "int \<Rightarrow> bool" where
  \<comment> \<open>the 64 bit signed range\<close>
  "example_col_ok n = (- (2 ^ 63) \<le> n \<and> n < 2 ^ 63)"

definition example_to_date :: "string \<Rightarrow> date option" where
  "example_to_date s =
     (if s = ''2025-01-02'' then Some (2025, 1, 2)
      else if s = ''2025-03-04'' then Some (2025, 3, 4) else None)"

definition example_db :: database where
  "example_db = \<lparr>patients = [\<lparr>p_pk = Some 1, patient_id = ''P20250001''\<rparr>], teeth = [],
                  exams = [], measurements = []\<rparr>"

definition example_request :: request where
  "example_request =
     \<lparr>http_method = ''POST'', user = Some 7,
      POST = [''exam_date'' \<mapsto> ''2025-01-02'',
              ''depth_18_buccal_mesial'' \<mapsto> ''3'',
              ''bleeding_18_buccal_mesial'' \<mapsto> ''on'',
              ''depth_18_buccal_middle'' \<mapsto> [],
              ''depth_17_lingual_distal'' \<mapsto> '' 5'',
              ''calculus_17_lingual_distal'' \<mapsto> ''on''],
      body = NotJson\<rparr>"

definition example_bad_request :: request where
  "example_bad_request =
     \<lparr>http_method = ''POST'', user = Some 7,
      POST = [''exam_date'' \<mapsto> ''2025-01-02'',
              ''depth_18_buccal_mesial'' \<mapsto> ''3'',
              ''depth_18_buccal_middle'' \<mapsto> ''x''],
      body = NotJson\<rparr>"


text \<open>
  The shape every grid of the view has: each tooth that is a key carries a dictionary
  with exactly the two surfaces as keys.
\<close>

definition shaped :: "grid \<Rightarrow> bool" where
  "shaped g = (\<forall>t by_surface. g t = Some by_surface \<longrightarrow> dom by_surface = set surfaces)"

section \<open>Identifier generation\<close>

lemma sorted_le_last: "sorted xs \<Longrightarrow> x \<in> set xs \<Longrightarrow> x \<le> last xs"
  by (induction xs) auto

lemma sort_key_Nil_iff: "sort_key f rows = [] \<longleftrightarrow> rows = []"
  by (metis length_sort length_0_conv)

lemma order_by_last_None: "order_by_last f rows = None \<longleftrightarrow> rows = []"
  using sort_key_Nil_iff [of f rows] by (auto simp: order_by_last_def split: list.splits)

lemma order_by_last_Some:
  assumes "rows \<noteq> []"
  shows "\<exists>r \<in> set rows. order_by_last f rows = Some r \<and> f r = Max (f ` set rows)"
proof -
  let ?ys = "sort_key f rows"
  have ne: "?ys \<noteq> []" using assms by (simp add: sort_key_Nil_iff)
  have mem: "last ?ys \<in> set rows" using ne last_in_set by fastforce
  have srt: "sorted (map f ?ys)" by simp
  have "f x \<le> f (last ?ys)" if "x \<in> set rows" for x
  proof -
    have "f x \<in> set (map f ?ys)" using that by simp
    then have "f x \<le> last (map f ?ys)" using srt
      by (rule sorted_le_last[rotated])
    then show ?thesis using ne by (simp add: last_map)
  qed
  then have "Max (f ` set rows) = f (last ?ys)"
    using mem by (intro Max_eqI) auto
  moreover have "order_by_last f rows = Some (last ?ys)"
    using ne by (simp add: order_by_last_def split: list.splits)
  ultimately show ?thesis using mem by auto
qed


lemma replicate_unfold: "0 < n \<Longrightarrow> replicate n x = x # replicate (n - 1) x"
  by (cases n) simp_all

lemma py_int_9999: "py_int ''9999'' = Some 9999"
  by (simp add: py_int_def int_literal_def is_int_space_def is_digit_def digit_val_def)

lemma fmt_04d_1: "fmt_04d 1 = ''0001''"
  by code_simp

lemma fmt_04d_10000: "fmt_04d 10000 = ''10000''"
  by (simp add: fmt_04d_def zfill_def str_nat.simps)

lemma ids_with_prefix_filter:
  "ids_with_prefix pre (map f tbl) = f ` set (filter (\<lambda>p. startswith pre (f p)) tbl)"
  by (auto simp: ids_with_prefix_def)

lemma Patient_save_set:
  "patient_id self \<noteq> [] \<Longrightarrow> Patient_save year self tbl = Patient_super_save self tbl"
  by (simp add: Patient_save_def)

lemma Patient_save_first:
  assumes "patient_id self = []"
    and "ids_with_prefix (''P'' @ str_int year) (map patient_id tbl) = {}"
  shows "Patient_save year self tbl =
         Patient_super_save (self\<lparr>patient_id := ''P'' @ str_int year @ ''0001''\<rparr>) tbl"
proof -
  have "filter (\<lambda>p. startswith (''P'' @ str_int year) (patient_id p)) tbl = []"
    using assms(2) unfolding ids_with_prefix_filter by simp
  then show ?thesis
    using assms(1) by (simp add: Patient_save_def order_by_last_def fmt_04d_1)
qed

lemma Patient_save_next:
  assumes "patient_id self = []"
    and "ids_with_prefix (''P'' @ str_int year) (map patient_id tbl) \<noteq> {}"
  shows "Patient_save year self tbl =
         (case py_int (last4 (Max (ids_with_prefix (''P'' @ str_int year) (map patient_id tbl)))) of
            None \<Rightarrow> Inl ValueError
          | Some n \<Rightarrow> Patient_super_save
                (self\<lparr>patient_id := ''P'' @ str_int year @ fmt_04d (n + 1)\<rparr>) tbl)"
proof -
  let ?rows = "filter (\<lambda>p. startswith (''P'' @ str_int year) (patient_id p)) tbl"
  have "?rows \<noteq> []"
    using assms(2) unfolding ids_with_prefix_filter by (auto simp: filter_empty_conv)
  then obtain r where "order_by_last patient_id ?rows = Some r"
    and "patient_id r = Max (patient_id ` set ?rows)"
    using order_by_last_Some [of ?rows patient_id] by blast
  then show ?thesis
    using assms(1) unfolding ids_with_prefix_filter by (simp add: Patient_save_def)
qed

lemma Patient_super_save_id:
  "Patient_super_save self tbl = Inr (self', tbl') \<Longrightarrow>
     patient_id self' = patient_id self \<and> self' \<in> set tbl'"
  by (auto simp: Patient_super_save_def Let_def split: option.splits if_splits)

lemma Invoice_save_set:
  "invoice_number self \<noteq> [] \<Longrightarrow> Invoice_save year self tbl = Invoice_super_save self tbl"
  by (simp add: Invoice_save_def)

lemma Invoice_save_first:
  assumes "invoice_number self = []"
    and "ids_with_prefix (''INV'' @ str_int year) (map invoice_number tbl) = {}"
  shows "Invoice_save year self tbl =
         Invoice_super_save (self\<lparr>invoice_number := ''INV'' @ str_int year @ ''0001''\<rparr>) tbl"
proof -
  have "filter (\<lambda>p. startswith (''INV'' @ str_int year) (invoice_number p)) tbl = []"
    using assms(2) unfolding ids_with_prefix_filter by simp
  then show ?thesis
    using assms(1) by (simp add: Invoice_save_def order_by_last_def fmt_04d_1)
qed

lemma Invoice_save_next:
  assumes "invoice_number self = []"
    and "ids_with_prefix (''INV'' @ str_int year) (map invoice_number tbl) \<noteq> {}"
  shows "Invoice_save year self tbl =
         (case py_int (last4 (Max (ids_with_prefix (''INV'' @ str_int year) (map invoice_number tbl)))) of
            None \<Rightarrow> Inl ValueError
          | Some n \<Rightarrow> Invoice_super_save
                (self\<lparr>invoice_number := ''INV'' @ str_int year @ fmt_04d (n + 1)\<rparr>) tbl)"
proof -
  let ?rows = "filter (\<lambda>p. startswith (''INV'' @ str_int year) (invoice_number p)) tbl"
  have "?rows \<noteq> []"
    using assms(2) unfolding ids_with_prefix_filter by (auto simp: filter_empty_conv)
  then obtain r where "order_by_last invoice_number ?rows = Some r"
    and "invoice_number r = Max (invoice_number ` set ?rows)"
    using order_by_last_Some [of ?rows invoice_number] by blast
  then show ?thesis
    using assms(1) unfolding ids_with_prefix_filter by (simp add: Invoice_save_def)
qed

lemma Invoice_super_save_id:
  "Invoice_super_save self tbl = Inr (self', tbl') \<Longrightarrow>
     invoice_number self' = invoice_number self \<and> self' \<in> set tbl'"
  by (auto simp: Invoice_super_save_def Let_def split: option.splits if_splits)


text \<open>
  C3. A save with the identifier unset assigns the prefix for the year followed by the
  counter in the format \<^verbatim>\<open>04d\<close>: 1 when no identifier with the prefix exists, otherwise one
  more than the number read from the last four characters of the highest such
  identifier (the save raises ValueError when these are no number). A save with the
  identifier set hands the instance on as it is, and the row saved carries the
  identifier of the instance. The same holds for invoices.
\<close>

theorem sequential_identifier_generation:
  fixes pself :: "'a patient_scheme" and iself :: "'b invoice_scheme"
  shows
    "(patient_id pself \<noteq> [] \<longrightarrow> Patient_save year pself ptbl = Patient_super_save pself ptbl)
   \<and> (patient_id pself = [] \<longrightarrow>
        Patient_save year pself ptbl =
          (if ids_with_prefix (''P'' @ str_int year) (map patient_id ptbl) = {}
           then Patient_super_save (pself\<lparr>patient_id := ''P'' @ str_int year @ ''0001''\<rparr>) ptbl
           else case py_int (last4 (Max (ids_with_prefix (''P'' @ str_int year) (map patient_id ptbl)))) of
                  None \<Rightarrow> Inl ValueError
                | Some n \<Rightarrow> Patient_super_save
                      (pself\<lparr>patient_id := ''P'' @ str_int year @ fmt_04d (n + 1)\<rparr>) ptbl))
   \<and> (\<forall>s t. Patient_super_save pself ptbl = Inr (s, t) \<longrightarrow>
          patient_id s = patient_id pself \<and> s \<in> set t)
   \<and> (invoice_number iself \<noteq> [] \<longrightarrow> Invoice_save year iself itbl = Invoice_super_save iself itbl)
   \<and> (invoice_number iself = [] \<longrightarrow>
        Invoice_save year iself itbl =
          (if ids_with_prefix (''INV'' @ str_int year) (map invoice_number itbl) = {}
           then Invoice_super_save (iself\<lparr>invoice_number := ''INV'' @ str_int year @ ''0001''\<rparr>) itbl
           else case py_int (last4 (Max (ids_with_prefix (''INV'' @ str_int year) (map invoice_number itbl)))) of
                  None \<Rightarrow> Inl ValueError
                | Some n \<Rightarrow> Invoice_super_save
                      (iself\<lparr>invoice_number := ''INV'' @ str_int year @ fmt_04d (n + 1)\<rparr>) itbl))
   \<and> (\<forall>s t. Invoice_super_save iself itbl = Inr (s, t) \<longrightarrow>
          invoice_number s = invoice_number iself \<and> s \<in> set t)"
  using Patient_save_set [of pself year ptbl] Patient_save_first [of pself year ptbl]
    Patient_save_next [of pself year ptbl] Patient_super_save_id [of pself ptbl]
    Invoice_save_set [of iself year itbl] Invoice_save_first [of iself year itbl]
    Invoice_save_next [of iself year itbl] Invoice_super_save_id [of iself itbl]
  by (simp del: append.simps)

theorem sequential_identifier_generation_witness:
  "Patient_save 2025 \<lparr>p_pk = None, patient_id = []\<rparr>
     [\<lparr>p_pk = Some 1, patient_id = ''P20250009''\<rparr>, \<lparr>p_pk = Some 2, patient_id = ''P20240100''\<rparr>]
   = Inr (\<lparr>p_pk = Some 3, patient_id = ''P20250010''\<rparr>,
          [\<lparr>p_pk = Some 1, patient_id = ''P20250009''\<rparr>, \<lparr>p_pk = Some 2, patient_id = ''P20240100''\<rparr>,
           \<lparr>p_pk = Some 3, patient_id = ''P20250010''\<rparr>])
   \<and> Invoice_save 2025 \<lparr>i_pk = None, invoice_number = []\<rparr> []
   = Inr (\<lparr>i_pk = Some 1, invoice_number = ''INV20250001''\<rparr>,
          [\<lparr>i_pk = Some 1, invoice_number = ''INV20250001''\<rparr>])"
  using sequential_identifier_generation
    [of "\<lparr>p_pk = None, patient_id = []\<rparr>" 2025
        "[\<lparr>p_pk = Some 1, patient_id = ''P20250009''\<rparr>, \<lparr>p_pk = Some 2, patient_id = ''P20240100''\<rparr>]"
        "\<lparr>i_pk = None, invoice_number = []\<rparr>" "[]"]
  by (simp add: ids_with_prefix_def startswith_def str_int_def str_nat.simps last4_def
      py_int_def int_literal_def is_int_space_def is_digit_def digit_val_def fmt_04d_def zfill_def
      Patient_super_save_def Invoice_super_save_def fresh_pk_def Let_def replicate_unfold)

text \<open>
  C9. When the highest identifier with the year's prefix ends in 9999, the save assigns
  the prefix followed by 10000: five digits, nothing cut off and no error from the
  generator. An instance not yet in the table is then inserted with that identifier,
  unless a row already carries it.
\<close>

theorem counter_overflow:
  fixes pself :: "'a patient_scheme" and iself :: "'b invoice_scheme"
  shows
    "(patient_id pself = [] \<and> ids_with_prefix (''P'' @ str_int year) (map patient_id ptbl) \<noteq> {}
        \<and> last4 (Max (ids_with_prefix (''P'' @ str_int year) (map patient_id ptbl))) = ''9999'' \<longrightarrow>
        Patient_save year pself ptbl =
          Patient_super_save (pself\<lparr>patient_id := ''P'' @ str_int year @ ''10000''\<rparr>) ptbl
        \<and> (p_pk pself = None \<and> ''P'' @ str_int year @ ''10000'' \<notin> patient_id ` set ptbl \<longrightarrow>
             (\<exists>row. Patient_save year pself ptbl = Inr (row, ptbl @ [row])
                    \<and> patient_id row = ''P'' @ str_int year @ ''10000'')))
   \<and> (invoice_number iself = [] \<and> ids_with_prefix (''INV'' @ str_int year) (map invoice_number itbl) \<noteq> {}
        \<and> last4 (Max (ids_with_prefix (''INV'' @ str_int year) (map invoice_number itbl))) = ''9999'' \<longrightarrow>
        Invoice_save year iself itbl =
          Invoice_super_save (iself\<lparr>invoice_number := ''INV'' @ str_int year @ ''10000''\<rparr>) itbl
        \<and> (i_pk iself = None \<and> ''INV'' @ str_int year @ ''10000'' \<notin> invoice_number ` set itbl \<longrightarrow>
             (\<exists>row. Invoice_save year iself itbl = Inr (row, itbl @ [row])
                    \<and> invoice_number row = ''INV'' @ str_int year @ ''10000'')))"
proof -
  have p: "Patient_save year pself ptbl =
          Patient_super_save (pself\<lparr>patient_id := ''P'' @ str_int year @ ''10000''\<rparr>) ptbl"
    if "patient_id pself = []"
      and "ids_with_prefix (''P'' @ str_int year) (map patient_id ptbl) \<noteq> {}"
      and "last4 (Max (ids_with_prefix (''P'' @ str_int year) (map patient_id ptbl))) = ''9999''"
    using Patient_save_next [OF that(1,2)] that(3)
    by (simp add: py_int_9999 fmt_04d_10000 del: append.simps)
  have i: "Invoice_save year iself itbl =
          Invoice_super_save (iself\<lparr>invoice_number := ''INV'' @ str_int year @ ''10000''\<rparr>) itbl"
    if "invoice_number iself = []"
      and "ids_with_prefix (''INV'' @ str_int year) (map invoice_number itbl) \<noteq> {}"
      and "last4 (Max (ids_with_prefix (''INV'' @ str_int year) (map invoice_number itbl))) = ''9999''"
    using Invoice_save_next [OF that(1,2)] that(3)
    by (simp add: py_int_9999 fmt_04d_10000 del: append.simps)
  have ps: "\<exists>row. Patient_super_save (pself\<lparr>patient_id := x\<rparr>) ptbl = Inr (row, ptbl @ [row])
                    \<and> patient_id row = x"
    if "p_pk pself = None" and "x \<notin> patient_id ` set ptbl" for x
    using that by (auto simp: Patient_super_save_def Let_def)
  have isv: "\<exists>row. Invoice_super_save (iself\<lparr>invoice_number := x\<rparr>) itbl = Inr (row, itbl @ [row])
                    \<and> invoice_number row = x"
    if "i_pk iself = None" and "x \<notin> invoice_number ` set itbl" for x
    using that by (auto simp: Invoice_super_save_def Let_def)
  show ?thesis
    using p i ps isv by (simp del: append.simps)
qed

theorem counter_overflow_witness:
  "Patient_save 2025 \<lparr>p_pk = None, patient_id = []\<rparr>
     [\<lparr>p_pk = Some 1, patient_id = ''P20259998''\<rparr>, \<lparr>p_pk = Some 2, patient_id = ''P20259999''\<rparr>]
   = Patient_super_save \<lparr>p_pk = None, patient_id = ''P202510000''\<rparr>
     [\<lparr>p_pk = Some 1, patient_id = ''P20259998''\<rparr>, \<lparr>p_pk = Some 2, patient_id = ''P20259999''\<rparr>]
   \<and> Invoice_save 2025 \<lparr>i_pk = None, invoice_number = []\<rparr>
     [\<lparr>i_pk = Some 1, invoice_number = ''INV20259999''\<rparr>]
   = Invoice_super_save \<lparr>i_pk = None, invoice_number = ''INV202510000''\<rparr>
     [\<lparr>i_pk = Some 1, invoice_number = ''INV20259999''\<rparr>]"
  using counter_overflow
    [of "\<lparr>p_pk = None, patient_id = []\<rparr>" 2025
        "[\<lparr>p_pk = Some 1, patient_id = ''P20259998''\<rparr>, \<lparr>p_pk = Some 2, patient_id = ''P20259999''\<rparr>]"
        "\<lparr>i_pk = None, invoice_number = []\<rparr>"
        "[\<lparr>i_pk = Some 1, invoice_number = ''INV20259999''\<rparr>]"]
  by (simp add: ids_with_prefix_def startswith_def str_int_def str_nat.simps last4_def)

section \<open>The canonical enumerations and the lazy chart\<close>

lemma tooth_numbers_eq:
  "tooth_numbers = [18, 17, 16, 15, 14, 13, 12, 11, 21, 22, 23, 24, 25, 26, 27, 28,
                    48, 47, 46, 45, 44, 43, 42, 41, 31, 32, 33, 34, 35, 36, 37, 38]"
  by (simp add: tooth_numbers_def py_range_def py_range_down_def upto_rec_numeral)

lemma distinct_tooth_numbers: "distinct tooth_numbers"
  by (simp add: tooth_numbers_eq)

lemma length_tooth_numbers: "length tooth_numbers = 32"
  by (simp add: tooth_numbers_eq)

lemma distinct_combinations: "distinct combinations"
  unfolding combinations_def
  by (auto intro!: distinct_concat simp: distinct_map inj_on_def distinct_tooth_numbers surfaces_def positions_def)

lemma set_combinations: "set combinations = set tooth_numbers \<times> set surfaces \<times> set positions"
  by (auto simp: combinations_def)

lemma length_combinations: "length combinations = 192"
  by (simp add: combinations_def length_concat comp_def surfaces_def positions_def length_tooth_numbers sum_list_triv)


lemma Tooth_create_ok:
  assumes "\<forall>t \<in> set tbl. t_patient t = pid \<longrightarrow> t_tooth_number t \<noteq> n"
  shows "Tooth_create now pid n st tbl =
           Inr (tbl @ [\<lparr>t_pk = fresh_pk (map t_pk tbl), t_patient = pid, t_tooth_number = n,
                         t_status = st, t_notes = [], t_last_updated = now\<rparr>])"
  using assms by (auto simp: Tooth_create_def)

lemma create_teeth_ok:
  assumes "distinct ns"
    and "\<forall>t \<in> set tbl. t_patient t = pid \<longrightarrow> t_tooth_number t \<notin> set ns"
  shows "\<exists>new. create_teeth now pid ns tbl = (tbl @ new, None)
           \<and> map t_tooth_number new = ns
           \<and> (\<forall>t \<in> set new. t_patient t = pid \<and> t_status t = ''healthy'' \<and> t_notes t = []
                              \<and> t_last_updated t = now)"
  using assms
proof (induction ns arbitrary: tbl)
  case Nil
  then show ?case by simp
next
  case (Cons n ns)
  let ?row = "\<lparr>t_pk = fresh_pk (map t_pk tbl), t_patient = pid, t_tooth_number = n,
                t_status = ''healthy'', t_notes = [], t_last_updated = now\<rparr>"
  have step: "Tooth_create now pid n ''healthy'' tbl = Inr (tbl @ [?row])"
    using Cons.prems(2) by (intro Tooth_create_ok) auto
  have "\<forall>t \<in> set (tbl @ [?row]). t_patient t = pid \<longrightarrow> t_tooth_number t \<notin> set ns"
    using Cons.prems by auto
  with Cons.IH [of "tbl @ [?row]"] Cons.prems(1)
  obtain new where new: "create_teeth now pid ns (tbl @ [?row]) = ((tbl @ [?row]) @ new, None)"
      "map t_tooth_number new = ns"
      "\<forall>t \<in> set new. t_patient t = pid \<and> t_status t = ''healthy'' \<and> t_notes t = []
                              \<and> t_last_updated t = now"
    by auto
  show ?case
    by (rule exI [of _ "?row # new"]) (use step new in simp)
qed

lemma teeth_of_Nil_iff: "teeth_of pid db = [] \<longleftrightarrow> (\<forall>t \<in> set (teeth db). t_patient t \<noteq> pid)"
  by (simp add: teeth_of_def sort_key_Nil_iff filter_empty_conv)

lemma patient_detail_init:
  assumes "user req \<noteq> None" and "\<exists>p \<in> set (patients db). p_pk p = Some pid"
    and "\<forall>t \<in> set (teeth db). t_patient t \<noteq> pid"
  shows "\<exists>new page. patient_detail now req pid db = (db\<lparr>teeth := teeth db @ new\<rparr>, Chart_page page True)
           \<and> map t_tooth_number new = tooth_numbers
           \<and> (\<forall>t \<in> set new. t_patient t = pid \<and> t_status t = ''healthy'' \<and> t_notes t = []
                              \<and> t_last_updated t = now)"
proof -
  obtain new where new: "create_teeth now pid tooth_numbers (teeth db) = (teeth db @ new, None)"
      "map t_tooth_number new = tooth_numbers"
      "\<forall>t \<in> set new. t_patient t = pid \<and> t_status t = ''healthy'' \<and> t_notes t = []
                              \<and> t_last_updated t = now"
    using create_teeth_ok [OF distinct_tooth_numbers, of "teeth db" pid now] assms(3) by auto
  have "new \<noteq> []" using new(2) by (auto simp: tooth_numbers_eq)
  then obtain t where "t \<in> set new" by (cases new) auto
  then have "teeth_of pid (db\<lparr>teeth := teeth db @ new\<rparr>) \<noteq> []"
    using new(3) by (auto simp: teeth_of_Nil_iff)
  then show ?thesis
    using assms new by (auto simp: patient_detail_def teeth_of_Nil_iff Let_def)
qed

lemma patient_detail_existing:
  assumes "\<exists>t \<in> set (teeth db). t_patient t = pid"
  shows "fst (patient_detail now req pid db) = db"
  using assms by (auto simp: patient_detail_def teeth_of_Nil_iff)

text \<open>
  C4. For a logged-in visitor and an existing patient: when the patient has no tooth
  row, viewing the chart appends exactly 32 rows, numbered 18 down to 11, 21 up to 28,
  48 down to 41 and 31 up to 38 in this order, each of this patient, with status
  healthy and empty notes; when the patient has at least one tooth row, the view leaves
  the database as it is. Hence a second view after the first changes nothing.
\<close>

theorem lazy_chart_initialization:
  assumes "user req \<noteq> None" and "\<exists>p \<in> set (patients db). p_pk p = Some pid"
  shows "((\<forall>t \<in> set (teeth db). t_patient t \<noteq> pid) \<longrightarrow>
            (\<exists>new page. patient_detail now req pid db
                           = (db\<lparr>teeth := teeth db @ new\<rparr>, Chart_page page True)
               \<and> length new = 32
               \<and> map t_tooth_number new =
                     [18, 17, 16, 15, 14, 13, 12, 11, 21, 22, 23, 24, 25, 26, 27, 28,
                      48, 47, 46, 45, 44, 43, 42, 41, 31, 32, 33, 34, 35, 36, 37, 38]
               \<and> (\<forall>t \<in> set new. t_patient t = pid \<and> t_status t = ''healthy'' \<and> t_notes t = [])))
       \<and> ((\<exists>t \<in> set (teeth db). t_patient t = pid) \<longrightarrow> fst (patient_detail now req pid db) = db)
       \<and> fst (patient_detail now' req' pid (fst (patient_detail now req pid db)))
           = fst (patient_detail now req pid db)"
proof (intro conjI impI)
  assume none: "\<forall>t \<in> set (teeth db). t_patient t \<noteq> pid"
  from patient_detail_init [OF assms none, of now]
  obtain new page where new:
      "patient_detail now req pid db = (db\<lparr>teeth := teeth db @ new\<rparr>, Chart_page page True)"
      "map t_tooth_number new = tooth_numbers"
      "\<forall>t \<in> set new. t_patient t = pid \<and> t_status t = ''healthy'' \<and> t_notes t = []
                              \<and> t_last_updated t = now"
    by blast
  have "length new = 32"
    using new(2) length_tooth_numbers by (metis length_map)
  then show "\<exists>new page. patient_detail now req pid db
                           = (db\<lparr>teeth := teeth db @ new\<rparr>, Chart_page page True)
               \<and> length new = 32
               \<and> map t_tooth_number new =
                     [18, 17, 16, 15, 14, 13, 12, 11, 21, 22, 23, 24, 25, 26, 27, 28,
                      48, 47, 46, 45, 44, 43, 42, 41, 31, 32, 33, 34, 35, 36, 37, 38]
               \<and> (\<forall>t \<in> set new. t_patient t = pid \<and> t_status t = ''healthy'' \<and> t_notes t = [])"
    using new tooth_numbers_eq by auto
next
  assume "\<exists>t \<in> set (teeth db). t_patient t = pid"
  then show "fst (patient_detail now req pid db) = db"
    by (rule patient_detail_existing)
next
  show "fst (patient_detail now' req' pid (fst (patient_detail now req pid db)))
           = fst (patient_detail now req pid db)"
  proof (cases "\<forall>t \<in> set (teeth db). t_patient t \<noteq> pid")
    case True
    from patient_detail_init [OF assms True, of now]
    obtain new page where new:
      "patient_detail now req pid db = (db\<lparr>teeth := teeth db @ new\<rparr>, Chart_page page True)"
      "map t_tooth_number new = tooth_numbers"
      "\<forall>t \<in> set new. t_patient t = pid \<and> t_status t = ''healthy'' \<and> t_notes t = []
                              \<and> t_last_updated t = now"
      by blast
    have "new \<noteq> []" using new(2) by (auto simp: tooth_numbers_eq)
    then obtain t where "t \<in> set new" by (cases new) auto
    then have "\<exists>t \<in> set (teeth (db\<lparr>teeth := teeth db @ new\<rparr>)). t_patient t = pid"
      using new(3) by auto
    then show ?thesis
      using new(1) patient_detail_existing by simp
  next
    case False
    then have "\<exists>t \<in> set (teeth db). t_patient t = pid" by simp
    then show ?thesis
      using patient_detail_existing by simp
  qed
qed

theorem lazy_chart_initialization_witness:
  "map t_tooth_number (teeth (fst (patient_detail 3 example_request 1 example_db)))
     = [18, 17, 16, 15, 14, 13, 12, 11, 21, 22, 23, 24, 25, 26, 27, 28,
        48, 47, 46, 45, 44, 43, 42, 41, 31, 32, 33, 34, 35, 36, 37, 38]
   \<and> length (teeth (fst (patient_detail 3 example_request 1 example_db))) = 32
   \<and> fst (patient_detail 4 example_request 1 (fst (patient_detail 3 example_request 1 example_db)))
     = fst (patient_detail 3 example_request 1 example_db)"
  using lazy_chart_initialization
    [where req = example_request and db = example_db and pid = 1 and now = 3 and now' = 4
       and req' = example_request]
  by (auto simp: example_db_def example_request_def)

section \<open>Updating the status of a tooth\<close>

lemma find_map_update:
  assumes "find (\<lambda>t. t_pk t = k) ts = Some t0" and "t_pk s = k"
  shows "find (\<lambda>t. t_pk t = k) (map (\<lambda>t. if t_pk t = k then s else t) ts) = Some s"
  using assms by (induction ts) (auto split: if_splits)

lemma statuses_eq:
  "map fst TOOTH_STATUS_CHOICES =
     [''healthy'', ''cavity'', ''filled'', ''crown'', ''root_canal'', ''missing'', ''implant'', ''bridge'']"
  by (simp add: TOOTH_STATUS_CHOICES_def)

lemma tooth_update_invalid:
  assumes "user req \<noteq> None" and "http_method req = ''POST''"
    and "find (\<lambda>t. t_pk t = tooth_id) (teeth db) = Some tooth"
    and "body req = Object (Some st) notes_in"
    and "st \<notin> set (map fst TOOTH_STATUS_CHOICES)"
  shows "tooth_update now req tooth_id db = (db, Update_error 400 ''Invalid tooth status'')"
  using assms by (simp add: tooth_update_def)

lemma tooth_update_valid:
  assumes "user req \<noteq> None" and "http_method req = ''POST''"
    and "find (\<lambda>t. t_pk t = tooth_id) (teeth db) = Some tooth"
    and "body req = Object (Some st) notes_in"
    and "st \<in> set (map fst TOOTH_STATUS_CHOICES)"
  shows "tooth_update now req tooth_id db =
    (db\<lparr>teeth := map (\<lambda>t. if t_pk t = tooth_id
                           then tooth\<lparr>t_status := st,
                                      t_notes := (case notes_in of None \<Rightarrow> t_notes tooth
                                                  | Some n \<Rightarrow> if n \<noteq> [] then n else t_notes tooth),
                                      t_last_updated := now\<rparr>
                           else t) (teeth db)\<rparr>,
     Update_ok (t_tooth_number tooth) st
       (case map_of TOOTH_STATUS_CHOICES st of Some label \<Rightarrow> label | None \<Rightarrow> st)
       (case notes_in of None \<Rightarrow> t_notes tooth | Some n \<Rightarrow> if n \<noteq> [] then n else t_notes tooth))"
  using assms
  by (cases notes_in) (auto simp: tooth_update_def Let_def get_status_display_def split: option.splits)

text \<open>
  C5. For a logged-in POST on an existing tooth whose JSON body is an object with a
  status string: a status outside the eight canonical values is answered with the
  error \<open>Invalid tooth status\<close> (HTTP 400) and the database is unchanged; a status among
  the eight is written to the tooth, together with the notes when a non-empty notes
  string came along, the row read back carries them, and the answer returns the new
  status with its display label.
\<close>

theorem tooth_status_update_validation:
  assumes "user req \<noteq> None" and "http_method req = ''POST''"
    and "find (\<lambda>t. t_pk t = tooth_id) (teeth db) = Some tooth"
    and "body req = Object (Some st) notes_in"
  shows "(st \<notin> set [''healthy'', ''cavity'', ''filled'', ''crown'', ''root_canal'', ''missing'',
                     ''implant'', ''bridge''] \<longrightarrow>
            tooth_update now req tooth_id db = (db, Update_error 400 ''Invalid tooth status''))
       \<and> (st \<in> set [''healthy'', ''cavity'', ''filled'', ''crown'', ''root_canal'', ''missing'',
                     ''implant'', ''bridge''] \<longrightarrow>
            (\<exists>db' label saved.
               tooth_update now req tooth_id db
                 = (db', Update_ok (t_tooth_number tooth) st label (t_notes saved))
               \<and> map_of TOOTH_STATUS_CHOICES st = Some label
               \<and> find (\<lambda>t. t_pk t = tooth_id) (teeth db') = Some saved
               \<and> t_status saved = st
               \<and> t_notes saved = (case notes_in of None \<Rightarrow> t_notes tooth
                                   | Some n \<Rightarrow> if n \<noteq> [] then n else t_notes tooth)
               \<and> t_tooth_number saved = t_tooth_number tooth \<and> t_patient saved = t_patient tooth
               \<and> patients db' = patients db \<and> exams db' = exams db
               \<and> measurements db' = measurements db
               \<and> (\<forall>i < length (teeth db). t_pk (teeth db ! i) \<noteq> tooth_id \<longrightarrow>
                     teeth db' ! i = teeth db ! i)
               \<and> length (teeth db') = length (teeth db)))"
proof (intro conjI impI)
  assume "st \<notin> set [''healthy'', ''cavity'', ''filled'', ''crown'', ''root_canal'', ''missing'',
                     ''implant'', ''bridge'']"
  then show "tooth_update now req tooth_id db = (db, Update_error 400 ''Invalid tooth status'')"
    using tooth_update_invalid [OF assms] by (simp add: statuses_eq)
next
  assume valid: "st \<in> set [''healthy'', ''cavity'', ''filled'', ''crown'', ''root_canal'', ''missing'',
                     ''implant'', ''bridge'']"
  let ?saved = "tooth\<lparr>t_status := st,
                      t_notes := (case notes_in of None \<Rightarrow> t_notes tooth
                                  | Some n \<Rightarrow> if n \<noteq> [] then n else t_notes tooth),
                      t_last_updated := now\<rparr>"
  let ?db' = "db\<lparr>teeth := map (\<lambda>t. if t_pk t = tooth_id then ?saved else t) (teeth db)\<rparr>"
  have mem: "st \<in> set (map fst TOOTH_STATUS_CHOICES)"
    using valid by (simp add: statuses_eq)
  then obtain label where label: "map_of TOOTH_STATUS_CHOICES st = Some label"
    by (metis map_of_eq_None_iff not_Some_eq set_map)
  have pk: "t_pk tooth = tooth_id"
    using assms(3) by (auto dest: find_Some_iff [THEN iffD1])
  have run: "tooth_update now req tooth_id db =
               (?db', Update_ok (t_tooth_number tooth) st label (t_notes ?saved))"
    using tooth_update_valid [OF assms mem, of now] label by simp
  have found: "find (\<lambda>t. t_pk t = tooth_id) (teeth ?db') = Some ?saved"
    using find_map_update [OF assms(3), of ?saved] pk by simp
  show "\<exists>db' label saved.
               tooth_update now req tooth_id db
                 = (db', Update_ok (t_tooth_number tooth) st label (t_notes saved))
               \<and> map_of TOOTH_STATUS_CHOICES st = Some label
               \<and> find (\<lambda>t. t_pk t = tooth_id) (teeth db') = Some saved
               \<and> t_status saved = st
               \<and> t_notes saved = (case notes_in of None \<Rightarrow> t_notes tooth
                                   | Some n \<Rightarrow> if n \<noteq> [] then n else t_notes tooth)
               \<and> t_tooth_number saved = t_tooth_number tooth \<and> t_patient saved = t_patient tooth
               \<and> patients db' = patients db \<and> exams db' = exams db
               \<and> measurements db' = measurements db
               \<and> (\<forall>i < length (teeth db). t_pk (teeth db ! i) \<noteq> tooth_id \<longrightarrow>
                     teeth db' ! i = teeth db ! i)
               \<and> length (teeth db') = length (teeth db)"
    apply (rule exI [of _ ?db'])
    apply (rule exI [of _ label])
    apply (rule exI [of _ ?saved])
    using run label found by simp
qed

theorem tooth_status_update_validation_witness:
  "tooth_update 9 \<lparr>http_method = ''POST'', user = Some 7, POST = Map.empty,
                   body = Object (Some ''purple'') (Some ''x'')\<rparr> 4
     \<lparr>patients = [], teeth = [\<lparr>t_pk = 4, t_patient = 1, t_tooth_number = 18, t_status = ''healthy'',
                               t_notes = [], t_last_updated = 2\<rparr>], exams = [], measurements = []\<rparr>
   = (\<lparr>patients = [], teeth = [\<lparr>t_pk = 4, t_patient = 1, t_tooth_number = 18, t_status = ''healthy'',
                               t_notes = [], t_last_updated = 2\<rparr>], exams = [], measurements = []\<rparr>,
      Update_error 400 ''Invalid tooth status'')"
  using tooth_status_update_validation
    [where req = "\<lparr>http_method = ''POST'', user = Some 7, POST = Map.empty,
                   body = Object (Some ''purple'') (Some ''x'')\<rparr>"
       and tooth_id = 4
       and db = "\<lparr>patients = [], teeth = [\<lparr>t_pk = 4, t_patient = 1, t_tooth_number = 18, t_status = ''healthy'',
                               t_notes = [], t_last_updated = 2\<rparr>], exams = [], measurements = []\<rparr>"
       and tooth = "\<lparr>t_pk = 4, t_patient = 1, t_tooth_number = 18, t_status = ''healthy'',
                               t_notes = [], t_last_updated = 2\<rparr>"
       and st = "''purple''" and notes_in = "Some ''x''" and now = 9]
  by simp

section \<open>Repeating an update\<close>

lemma tooth_update_cases:
  "(\<exists>tooth st notes_in. user req \<noteq> None \<and> http_method req = ''POST''
        \<and> find (\<lambda>t. t_pk t = tooth_id) (teeth db) = Some tooth
        \<and> body req = Object (Some st) notes_in \<and> st \<in> set (map fst TOOTH_STATUS_CHOICES))
   \<or> (\<forall>now. fst (tooth_update now req tooth_id db) = db)"
  by (auto simp: tooth_update_def split: option.splits json_body.splits)

lemma tooth_update_twice:
  "fst (tooth_update t2 req tooth_id (fst (tooth_update t1 req tooth_id db)))
     = fst (tooth_update t2 req tooth_id db)"
proof -
  consider (ok) tooth st notes_in where "user req \<noteq> None" "http_method req = ''POST''"
        "find (\<lambda>t. t_pk t = tooth_id) (teeth db) = Some tooth"
        "body req = Object (Some st) notes_in" "st \<in> set (map fst TOOTH_STATUS_CHOICES)"
    | (no) "\<forall>now. fst (tooth_update now req tooth_id db) = db"
    using tooth_update_cases [of req tooth_id db] by blast
  then show ?thesis
  proof cases
    case ok
    let ?n = "case notes_in of None \<Rightarrow> t_notes tooth
              | Some n \<Rightarrow> if n \<noteq> [] then n else t_notes tooth"
    let ?saved = "\<lambda>now. tooth\<lparr>t_status := st, t_notes := ?n, t_last_updated := now\<rparr>"
    let ?db1 = "db\<lparr>teeth := map (\<lambda>t. if t_pk t = tooth_id then ?saved t1 else t) (teeth db)\<rparr>"
    have pk: "t_pk tooth = tooth_id"
      using ok(3) by (auto dest: find_Some_iff [THEN iffD1])
    have one: "fst (tooth_update now req tooth_id db)
        = db\<lparr>teeth := map (\<lambda>t. if t_pk t = tooth_id then ?saved now else t) (teeth db)\<rparr>" for now
      using tooth_update_valid [OF ok, of now] by simp
    have found: "find (\<lambda>t. t_pk t = tooth_id) (teeth ?db1) = Some (?saved t1)"
      using find_map_update [OF ok(3), of "?saved t1"] pk by simp
    have two: "fst (tooth_update t2 req tooth_id ?db1)
        = ?db1\<lparr>teeth := map (\<lambda>t. if t_pk t = tooth_id
                then (?saved t1)\<lparr>t_status := st,
                       t_notes := (case notes_in of None \<Rightarrow> t_notes (?saved t1)
                                   | Some n \<Rightarrow> if n \<noteq> [] then n else t_notes (?saved t1)),
                       t_last_updated := t2\<rparr>
                else t) (teeth ?db1)\<rparr>"
      using tooth_update_valid [OF ok(1,2) found ok(4,5), of t2] by simp
    have same: "(?saved t1)\<lparr>t_status := st,
                       t_notes := (case notes_in of None \<Rightarrow> t_notes (?saved t1)
                                   | Some n \<Rightarrow> if n \<noteq> [] then n else t_notes (?saved t1)),
                       t_last_updated := t2\<rparr> = ?saved t2"
      by (cases notes_in) simp_all
    show ?thesis
      unfolding one two same by (simp add: pk comp_def cong: if_cong)
  next
    case no
    then show ?thesis by simp
  qed
qed

text \<open>
  C8, as the claim states it, fails: the tooth row has the column \<^verbatim>\<open>last_updated\<close> with
  \<^verbatim>\<open>auto_now=True\<close>, which every save sets to the time of the save. Updating tooth 4 to
  cavity at time 1 and again at time 2 leaves a state that differs from the state after
  the first update.
\<close>

theorem tooth_update_idempotence_counterexample:
  "fst (tooth_update 2 \<lparr>http_method = ''POST'', user = Some 7, POST = Map.empty,
                        body = Object (Some ''cavity'') None\<rparr> 4
         (fst (tooth_update 1 \<lparr>http_method = ''POST'', user = Some 7, POST = Map.empty,
                                body = Object (Some ''cavity'') None\<rparr> 4
            \<lparr>patients = [], teeth = [\<lparr>t_pk = 4, t_patient = 1, t_tooth_number = 18,
                                      t_status = ''healthy'', t_notes = [], t_last_updated = 0\<rparr>],
             exams = [], measurements = []\<rparr>)))
   \<noteq> fst (tooth_update 1 \<lparr>http_method = ''POST'', user = Some 7, POST = Map.empty,
                           body = Object (Some ''cavity'') None\<rparr> 4
            \<lparr>patients = [], teeth = [\<lparr>t_pk = 4, t_patient = 1, t_tooth_number = 18,
                                      t_status = ''healthy'', t_notes = [], t_last_updated = 0\<rparr>],
             exams = [], measurements = []\<rparr>)"
  by (simp add: tooth_update_def TOOTH_STATUS_CHOICES_def Let_def)

text \<open>
  C8, amended. Applying the same update a second time, at time \<open>t2\<close> after a first
  application at time \<open>t1\<close>, gives the state that one application at time \<open>t2\<close> gives:
  every table other than the teeth is as after the first application, every tooth row
  has the status, the notes and all other columns it had after the first application,
  and only \<^verbatim>\<open>last_updated\<close> of the updated tooth is set anew. When both times are equal the
  second application changes nothing.
\<close>

theorem tooth_update_idempotence_amended:
  "fst (tooth_update t2 req tooth_id (fst (tooth_update t1 req tooth_id db)))
     = fst (tooth_update t2 req tooth_id db)
   \<and> patients (fst (tooth_update t2 req tooth_id (fst (tooth_update t1 req tooth_id db))))
     = patients (fst (tooth_update t1 req tooth_id db))
   \<and> exams (fst (tooth_update t2 req tooth_id (fst (tooth_update t1 req tooth_id db))))
     = exams (fst (tooth_update t1 req tooth_id db))
   \<and> measurements (fst (tooth_update t2 req tooth_id (fst (tooth_update t1 req tooth_id db))))
     = measurements (fst (tooth_update t1 req tooth_id db))
   \<and> map (\<lambda>t. t\<lparr>t_last_updated := 0\<rparr>)
         (teeth (fst (tooth_update t2 req tooth_id (fst (tooth_update t1 req tooth_id db)))))
     = map (\<lambda>t. t\<lparr>t_last_updated := 0\<rparr>) (teeth (fst (tooth_update t1 req tooth_id db)))
   \<and> (\<forall>t \<in> set (teeth (fst (tooth_update t2 req tooth_id (fst (tooth_update t1 req tooth_id db))))).
         t_pk t \<noteq> tooth_id \<longrightarrow> t \<in> set (teeth (fst (tooth_update t1 req tooth_id db))))
   \<and> (t2 = t1 \<longrightarrow>
        fst (tooth_update t2 req tooth_id (fst (tooth_update t1 req tooth_id db)))
          = fst (tooth_update t1 req tooth_id db))"
proof -
  have tw: "fst (tooth_update t2 req tooth_id (fst (tooth_update t1 req tooth_id db)))
     = fst (tooth_update t2 req tooth_id db)"
    by (rule tooth_update_twice)
  consider (ok) tooth st notes_in where "user req \<noteq> None" "http_method req = ''POST''"
        "find (\<lambda>t. t_pk t = tooth_id) (teeth db) = Some tooth"
        "body req = Object (Some st) notes_in" "st \<in> set (map fst TOOTH_STATUS_CHOICES)"
    | (no) "\<forall>now. fst (tooth_update now req tooth_id db) = db"
    using tooth_update_cases [of req tooth_id db] by blast
  then have rest: "patients (fst (tooth_update t2 req tooth_id db)) = patients (fst (tooth_update t1 req tooth_id db))
     \<and> exams (fst (tooth_update t2 req tooth_id db)) = exams (fst (tooth_update t1 req tooth_id db))
     \<and> measurements (fst (tooth_update t2 req tooth_id db)) = measurements (fst (tooth_update t1 req tooth_id db))
     \<and> map (\<lambda>t. t\<lparr>t_last_updated := 0\<rparr>) (teeth (fst (tooth_update t2 req tooth_id db)))
       = map (\<lambda>t. t\<lparr>t_last_updated := 0\<rparr>) (teeth (fst (tooth_update t1 req tooth_id db)))
     \<and> (\<forall>t \<in> set (teeth (fst (tooth_update t2 req tooth_id db))).
         t_pk t \<noteq> tooth_id \<longrightarrow> t \<in> set (teeth (fst (tooth_update t1 req tooth_id db))))"
  proof cases
    case ok
    have pk: "t_pk tooth = tooth_id"
      using ok(3) by (auto dest: find_Some_iff [THEN iffD1])
    show ?thesis
      unfolding tooth_update_valid [OF ok] using pk by (auto simp: comp_def)
  next
    case no
    then show ?thesis by simp
  qed
  show ?thesis
    unfolding tw using rest by simp
qed

theorem tooth_update_idempotence_amended_witness:
  "fst (tooth_update 1 \<lparr>http_method = ''POST'', user = Some 7, POST = Map.empty,
                        body = Object (Some ''cavity'') None\<rparr> 4
         (fst (tooth_update 1 \<lparr>http_method = ''POST'', user = Some 7, POST = Map.empty,
                                body = Object (Some ''cavity'') None\<rparr> 4
            \<lparr>patients = [], teeth = [\<lparr>t_pk = 4, t_patient = 1, t_tooth_number = 18,
                                      t_status = ''healthy'', t_notes = [], t_last_updated = 0\<rparr>],
             exams = [], measurements = []\<rparr>)))
   = \<lparr>patients = [], teeth = [\<lparr>t_pk = 4, t_patient = 1, t_tooth_number = 18,
                               t_status = ''cavity'', t_notes = [], t_last_updated = 1\<rparr>],
      exams = [], measurements = []\<rparr>"
  using tooth_update_idempotence_amended
    [where ?t2.0 = 1 and ?t1.0 = 1 and tooth_id = 4
       and req = "\<lparr>http_method = ''POST'', user = Some 7, POST = Map.empty,
                        body = Object (Some ''cavity'') None\<rparr>"
       and db = "\<lparr>patients = [], teeth = [\<lparr>t_pk = 4, t_patient = 1, t_tooth_number = 18,
                                      t_status = ''healthy'', t_notes = [], t_last_updated = 0\<rparr>],
             exams = [], measurements = []\<rparr>"]
  by (simp add: tooth_update_def TOOTH_STATUS_CHOICES_def Let_def)

section \<open>The loop of the creation view\<close>

lemma key_of_row_of [simp]: "key_of (row_of e k v) = k"
  by (simp add: key_of_def row_of_def)

lemma m_exam_row_of [simp]: "m_exam (row_of e k v) = e"
  by (simp add: row_of_def)

lemma mobility_row_of [simp]: "mobility (row_of e k v) = None"
  by (simp add: row_of_def)

lemma rows_of_Nil [simp]: "rows_of post e [] = []"
  by (simp add: rows_of_def map_filter_simps)

lemma rows_of_Cons:
  "rows_of post e (k # ks) =
     (case entry post k of None \<Rightarrow> rows_of post e ks | Some v \<Rightarrow> row_of e k v # rows_of post e ks)"
  by (simp add: rows_of_def map_filter_simps split: option.splits)

lemma in_rows_of:
  "m \<in> set (rows_of post e ks) \<longleftrightarrow> (\<exists>k \<in> set ks. \<exists>v. entry post k = Some v \<and> m = row_of e k v)"
proof (induction ks)
  case Nil
  then show ?case by simp
next
  case (Cons k ks)
  show ?case
  proof (cases "entry post k")
    case None
    then show ?thesis using Cons.IH by (simp add: rows_of_Cons del: split_paired_Ex split_paired_All)
  next
    case (Some v)
    then show ?thesis using Cons.IH by (auto simp add: rows_of_Cons simp del: split_paired_Ex split_paired_All)
  qed
qed

lemma keys_rows_of: "map key_of (rows_of post e ks) = filter (\<lambda>k. entry post k \<noteq> None) ks"
  by (induction ks) (auto simp: rows_of_Cons split: option.splits)

lemma pocket_depth_row_of [simp]: "pocket_depth (row_of e k v) = fst v"
  by (simp add: row_of_def)

lemma refusal_Nil [simp]: "refusal col_ok post [] = None"
  by (simp add: refusal_def)

lemma refusal_Cons:
  "refusal col_ok post (k # ks) =
     (if malformed post k then Some ValueError
      else if out_of_range col_ok post k then Some OverflowError
      else refusal col_ok post ks)"
  by (simp add: refusal_def refused_def)

lemma refusal_None_iff: "refusal col_ok post ks = None \<longleftrightarrow> (\<forall>k \<in> set ks. \<not> refused col_ok post k)"
proof -
  have "refusal col_ok post ks = None \<longleftrightarrow> find (refused col_ok post) ks = None"
    by (simp add: refusal_def split: option.splits)
  then show ?thesis by (auto simp: find_None_iff)
qed

lemma process_measurements_char:
  assumes "distinct ks"
    and "\<forall>x \<in> set tbl. m_exam x = e \<longrightarrow> key_of x \<notin> set ks"
  shows "process_measurements col_ok post e ks tbl =
           (tbl @ rows_of post e (takeWhile (\<lambda>k. \<not> refused col_ok post k) ks),
            refusal col_ok post ks)"
  using assms
proof (induction ks arbitrary: tbl)
  case Nil
  then show ?case by simp
next
  case (Cons k ks)
  have rest: "\<forall>x \<in> set tbl. m_exam x = e \<longrightarrow> key_of x \<notin> set ks"
    using Cons.prems(2) by auto
  have dks: "distinct ks" using Cons.prems(1) by simp
  show ?case
  proof (cases "submitted post k")
    case False
    then have "entry post k = None" "\<not> refused col_ok post k"
      by (auto simp: submitted_def entry_def malformed_def refused_def out_of_range_def
               split: option.splits)
    moreover have "process_measurements col_ok post e (k # ks) tbl
                     = process_measurements col_ok post e ks tbl"
      using False by (auto simp: submitted_def split: option.splits)
    ultimately show ?thesis
      using Cons.IH [OF dks rest] by (simp add: rows_of_Cons refusal_Cons refused_def)
  next
    case True
    then obtain depth where depth: "post (depth_field k) = Some depth" "depth \<noteq> []" "strip depth \<noteq> []"
      by (auto simp: submitted_def split: option.splits)
    show ?thesis
    proof (cases "py_int depth")
      case None
      then have "malformed post k"
        using True depth by (simp add: malformed_def entry_def)
      moreover have "process_measurements col_ok post e (k # ks) tbl = (tbl, Some ValueError)"
        using depth None by simp
      ultimately show ?thesis by (simp add: refusal_Cons refused_def)
    next
      case (Some d)
      let ?v = "(d, post (bleeding_field k) = Some ''on'', post (calculus_field k) = Some ''on'')"
      have ent: "entry post k = Some ?v"
        using depth Some by (simp add: entry_def)
      then have nm: "\<not> malformed post k" by (simp add: malformed_def)
      have row: "\<lparr>m_exam = e, tooth_number = fst k, position = snd (snd k),
                            surface = fst (snd k), pocket_depth = d,
                            bleeding = (post (bleeding_field k) = Some ''on''),
                            calculus = (post (calculus_field k) = Some ''on''), mobility = None\<rparr>
                 = row_of e k ?v"
        by (simp add: row_of_def)
      show ?thesis
      proof (cases "col_ok d")
        case False
        then have oor: "out_of_range col_ok post k"
          using ent by (simp add: out_of_range_def)
        have "ToothMeasurement_create col_ok (row_of e k ?v) tbl = Inl OverflowError"
          using False by (simp add: ToothMeasurement_create_def)
        then have "process_measurements col_ok post e (k # ks) tbl = (tbl, Some OverflowError)"
          using depth Some by (simp add: row Let_def)
        then show ?thesis
          using nm oor by (simp add: refusal_Cons refused_def)
      next
        case ok: True
        then have noor: "\<not> out_of_range col_ok post k"
          using ent by (simp add: out_of_range_def)
        have free: "\<not> (\<exists>x \<in> set tbl. m_exam x = m_exam (row_of e k ?v)
                          \<and> tooth_number x = tooth_number (row_of e k ?v)
                          \<and> position x = position (row_of e k ?v)
                          \<and> surface x = surface (row_of e k ?v))"
        proof
          assume "\<exists>x \<in> set tbl. m_exam x = m_exam (row_of e k ?v)
                          \<and> tooth_number x = tooth_number (row_of e k ?v)
                          \<and> position x = position (row_of e k ?v)
                          \<and> surface x = surface (row_of e k ?v)"
          then obtain x where "x \<in> set tbl" "m_exam x = e" "key_of x = k"
            by (auto simp: row_of_def key_of_def)
          then show False using Cons.prems(2) by auto
        qed
        have cr: "ToothMeasurement_create col_ok (row_of e k ?v) tbl = Inr (tbl @ [row_of e k ?v])"
          using free ok unfolding ToothMeasurement_create_def by simp
        have step: "process_measurements col_ok post e (k # ks) tbl
                    = process_measurements col_ok post e ks (tbl @ [row_of e k ?v])"
          using depth Some cr by (simp add: row Let_def)
        have "\<forall>x \<in> set (tbl @ [row_of e k ?v]). m_exam x = e \<longrightarrow> key_of x \<notin> set ks"
          using rest Cons.prems(1) by auto
        from Cons.IH [OF dks this] show ?thesis
          using step ent nm noor by (simp add: rows_of_Cons refusal_Cons refused_def)
      qed
    qed
  qed
qed


section \<open>Creating an exam\<close>

lemma fold_max_ge: "(a::nat) \<le> fold max pks a \<and> (\<forall>x \<in> set pks. x \<le> fold max pks a)"
proof (induction pks arbitrary: a)
  case Nil
  then show ?case by simp
next
  case (Cons p pks)
  have "max p a \<le> fold max pks (max p a)" "\<forall>x \<in> set pks. x \<le> fold max pks (max p a)"
    using Cons.IH [of "max p a"] by auto
  then show ?case by auto
qed

lemma fresh_pk_notin: "fresh_pk pks \<notin> set pks"
  using fold_max_ge [of 0 pks] by (auto simp: fresh_pk_def)

lemma fresh_exam_no_rows:
  assumes "foreign_keys_ok db"
  shows "\<forall>x \<in> set (measurements db). m_exam x \<noteq> fresh_pk (map e_pk (exams db))"
proof
  fix x assume "x \<in> set (measurements db)"
  then have "m_exam x \<in> set (map e_pk (exams db))"
    using assms by (auto simp: foreign_keys_ok_def)
  then show "m_exam x \<noteq> fresh_pk (map e_pk (exams db))"
    using fresh_pk_notin [of "map e_pk (exams db)"] by metis
qed

lemma create_no_date:
  assumes "user req \<noteq> None" and "\<exists>p \<in> set (patients db). p_pk p = Some pid"
    and "http_method req = ''POST''"
    and "POST req ''exam_date'' = None \<or> (\<exists>s. POST req ''exam_date'' = Some s \<and> to_date s = None)"
  shows "fst (periodontal_exam_create col_ok to_date now req pid db) = db
       \<and> (\<exists>e. snd (periodontal_exam_create col_ok to_date now req pid db) = Create_raised e)"
  using assms
  by (auto simp: periodontal_exam_create_def PeriodontalExam_create_def)

lemma create_with_date:
  assumes "user req \<noteq> None" and "\<exists>p \<in> set (patients db). p_pk p = Some pid"
    and "http_method req = ''POST''"
    and "POST req ''exam_date'' = Some s" and "to_date s = Some d"
    and "foreign_keys_ok db"
  shows "periodontal_exam_create col_ok to_date now req pid db =
    (db\<lparr>exams := exams db @
            [\<lparr>e_pk = fresh_pk (map e_pk (exams db)), e_patient = pid, exam_date = d,
              e_dentist = user req,
              e_notes = (case POST req ''notes'' of None \<Rightarrow> [] | Some n \<Rightarrow> n),
              e_created_at = now\<rparr>],
         measurements := measurements db @
            rows_of (POST req) (fresh_pk (map e_pk (exams db)))
              (takeWhile (\<lambda>k. \<not> refused col_ok (POST req) k) combinations)\<rparr>,
     case refusal col_ok (POST req) combinations of
       None \<Rightarrow> Create_redirect (fresh_pk (map e_pk (exams db)))
     | Some err \<Rightarrow> Create_raised err)"
proof -
  have "\<forall>x \<in> set (measurements db). m_exam x = fresh_pk (map e_pk (exams db))
          \<longrightarrow> key_of x \<notin> set combinations"
    using fresh_exam_no_rows [OF assms(6)] by auto
  from process_measurements_char [OF distinct_combinations this, of col_ok "POST req"]
  show ?thesis
    using assms(1-5)
    by (cases "refusal col_ok (POST req) combinations")
       (simp_all add: periodontal_exam_create_def PeriodontalExam_create_def Let_def)
qed


lemma create_cases:
  "(user req \<noteq> None \<and> (\<exists>p \<in> set (patients db). p_pk p = Some pid) \<and> http_method req = ''POST''
      \<and> (\<exists>s d. POST req ''exam_date'' = Some s \<and> to_date s = Some d))
   \<or> fst (periodontal_exam_create col_ok to_date now req pid db) = db"
  by (auto simp: periodontal_exam_create_def PeriodontalExam_create_def split: option.splits)

lemma example_create:
  "periodontal_exam_create example_col_ok example_to_date 5 example_request 1 example_db
   = (\<lparr>patients = [\<lparr>p_pk = Some 1, patient_id = ''P20250001''\<rparr>], teeth = [],
       exams = [\<lparr>e_pk = 1, e_patient = 1, exam_date = (2025, 1, 2), e_dentist = Some 7,
                 e_notes = [], e_created_at = 5\<rparr>],
       measurements =
         [\<lparr>m_exam = 1, tooth_number = 18, position = ''mesial'', surface = ''buccal'',
           pocket_depth = 3, bleeding = True, calculus = False, mobility = None\<rparr>,
          \<lparr>m_exam = 1, tooth_number = 17, position = ''distal'', surface = ''lingual'',
           pocket_depth = 5, bleeding = False, calculus = True, mobility = None\<rparr>]\<rparr>,
      Create_redirect 1)"
  by code_simp

lemma example_bad_create:
  "periodontal_exam_create example_col_ok example_to_date 5 example_bad_request 1 example_db
   = (\<lparr>patients = [\<lparr>p_pk = Some 1, patient_id = ''P20250001''\<rparr>], teeth = [],
       exams = [\<lparr>e_pk = 1, e_patient = 1, exam_date = (2025, 1, 2), e_dentist = Some 7,
                 e_notes = [], e_created_at = 5\<rparr>],
       measurements =
         [\<lparr>m_exam = 1, tooth_number = 18, position = ''mesial'', surface = ''buccal'',
           pocket_depth = 3, bleeding = False, calculus = False, mobility = None\<rparr>]\<rparr>,
      Create_raised ValueError)"
  by code_simp

lemma example_db_ok: "foreign_keys_ok example_db \<and> surfaces_ok example_db"
  by (simp add: foreign_keys_ok_def surfaces_ok_def example_db_def)

lemma process_measurements_appends:
  "\<exists>new. fst (process_measurements col_ok post e ks tbl) = tbl @ new
         \<and> (\<forall>m \<in> set new. mobility m = None \<and> m_exam m = e \<and> key_of m \<in> set ks)"
proof (induction ks arbitrary: tbl)
  case Nil
  then show ?case by simp
next
  case (Cons k ks)
  show ?case
  proof (cases "\<exists>tbl'. process_measurements col_ok post e (k # ks) tbl = process_measurements col_ok post e ks tbl'
                  \<and> (tbl' = tbl \<or> (\<exists>m. tbl' = tbl @ [m] \<and> mobility m = None \<and> m_exam m = e \<and> key_of m = k))")
    case True
    then obtain tbl' where t: "process_measurements col_ok post e (k # ks) tbl = process_measurements col_ok post e ks tbl'"
      "tbl' = tbl \<or> (\<exists>m. tbl' = tbl @ [m] \<and> mobility m = None \<and> m_exam m = e \<and> key_of m = k)"
      by blast
    from Cons.IH [of tbl'] obtain new where new: "fst (process_measurements col_ok post e ks tbl') = tbl' @ new"
      "\<forall>m \<in> set new. mobility m = None \<and> m_exam m = e \<and> key_of m \<in> set ks"
      by blast
    from t(2) show ?thesis
    proof
      assume "tbl' = tbl"
      then show ?thesis using t(1) new by auto
    next
      assume "\<exists>m. tbl' = tbl @ [m] \<and> mobility m = None \<and> m_exam m = e \<and> key_of m = k"
      then obtain m where m: "tbl' = tbl @ [m]" "mobility m = None" "m_exam m = e" "key_of m = k"
        by blast
      show ?thesis
        by (rule exI [of _ "m # new"]) (use t(1) new m in auto)
    qed
  next
    case False
    then have "fst (process_measurements col_ok post e (k # ks) tbl) = tbl"
      by (auto simp: Let_def ToothMeasurement_create_def key_of_def
               split: option.splits if_splits sum.splits)
    then show ?thesis by (intro exI [of _ "[]"]) simp
  qed
qed

text \<open>
  C10. Whatever the request, the rows that the creation view adds to the measurement
  table all have mobility null: the view reads no mobility field and the column's
  default is null.
\<close>

theorem created_rows_have_no_mobility:
  "\<exists>new. measurements (fst (periodontal_exam_create col_ok to_date now req pid db)) = measurements db @ new
         \<and> (\<forall>m \<in> set new. mobility m = None)"
proof -
  obtain new where new:
    "fst (process_measurements col_ok (POST req) (fresh_pk (map e_pk (exams db))) combinations (measurements db))
       = measurements db @ new" "\<forall>m \<in> set new. mobility m = None"
    using process_measurements_appends
      [of col_ok "POST req" "fresh_pk (map e_pk (exams db))" combinations "measurements db"]
    by blast
  have "measurements (fst (periodontal_exam_create col_ok to_date now req pid db)) = measurements db
      \<or> measurements (fst (periodontal_exam_create col_ok to_date now req pid db)) = measurements db @ new"
    using new(1)
    by (auto simp: periodontal_exam_create_def PeriodontalExam_create_def Let_def
             split: option.splits prod.splits)
  then show ?thesis
  proof
    assume "measurements (fst (periodontal_exam_create col_ok to_date now req pid db)) = measurements db"
    then show ?thesis by (intro exI [of _ "[]"]) simp
  next
    assume "measurements (fst (periodontal_exam_create col_ok to_date now req pid db)) = measurements db @ new"
    then show ?thesis using new(2) by blast
  qed
qed

theorem created_rows_have_no_mobility_witness:
  "map mobility
     (measurements (fst (periodontal_exam_create example_col_ok example_to_date 5 example_request 1 example_db)))
   = [None, None]"
  using created_rows_have_no_mobility
    [of example_col_ok example_to_date 5 example_request 1 example_db]
  unfolding example_create by (simp add: example_db_def)

section \<open>The measurement keys of a new exam, and what a failed creation leaves\<close>

lemma filter_rows_of_same: "filter (\<lambda>m. m_exam m = e) (rows_of post e ks) = rows_of post e ks"
  by (rule filter_True) (auto simp: in_rows_of)

lemma filter_rows_of_other:
  "e' \<noteq> e \<Longrightarrow> filter (\<lambda>m. m_exam m = e') (rows_of post e ks) = []"
  by (rule filter_False) (auto simp: in_rows_of)

lemma card_key_space: "card (set tooth_numbers \<times> set surfaces \<times> set positions) = 192"
proof -
  have "card (set tooth_numbers) = 32"
    using distinct_card [OF distinct_tooth_numbers] length_tooth_numbers by simp
  moreover have "card (set surfaces) = 2" "card (set positions) = 3"
    by (simp_all add: surfaces_def positions_def)
  ultimately show ?thesis
    by (simp add: card_cartesian_product)
qed

lemma patient_detail_all_or_nothing:
  "fst (patient_detail now req pid db) = db
   \<or> (\<exists>new. length new = 32 \<and> fst (patient_detail now req pid db) = db\<lparr>teeth := teeth db @ new\<rparr>)"
proof (cases "user req \<noteq> None \<and> (\<exists>p \<in> set (patients db). p_pk p = Some pid)
              \<and> (\<forall>t \<in> set (teeth db). t_patient t \<noteq> pid)")
  case True
  then obtain new page where new:
      "patient_detail now req pid db = (db\<lparr>teeth := teeth db @ new\<rparr>, Chart_page page True)"
      "map t_tooth_number new = tooth_numbers"
    using patient_detail_init [of req db pid now] by blast
  have "length new = 32"
    using new(2) length_tooth_numbers by (metis length_map)
  then show ?thesis using new(1) by auto
next
  case False
  then have "fst (patient_detail now req pid db) = db"
    by (auto simp: patient_detail_def teeth_of_Nil_iff)
  then show ?thesis by simp
qed

text \<open>
  C7. With the foreign key of the measurement table intact: every exam that the
  creation view adds to the exam table, whether the view ends with the redirect or
  with an exception, has measurement rows whose keys (tooth number, surface, position)
  lie in the key space of 32 teeth, 2 surfaces and 3 positions, which has 192 elements,
  and no two of its rows have the same key. The foreign key stays intact and the rows
  of the exams that existed before are untouched.
\<close>

theorem measurement_key_invariant:
  assumes "foreign_keys_ok db"
    and "e \<in> e_pk ` set (exams (fst (periodontal_exam_create col_ok to_date now req pid db)))"
    and "e \<notin> e_pk ` set (exams db)"
  shows "set (map key_of (filter (\<lambda>m. m_exam m = e)
                 (measurements (fst (periodontal_exam_create col_ok to_date now req pid db)))))
           \<subseteq> set tooth_numbers \<times> set surfaces \<times> set positions
       \<and> distinct (map key_of (filter (\<lambda>m. m_exam m = e)
                 (measurements (fst (periodontal_exam_create col_ok to_date now req pid db)))))
       \<and> card (set tooth_numbers \<times> set surfaces \<times> set positions) = 192
       \<and> foreign_keys_ok (fst (periodontal_exam_create col_ok to_date now req pid db))
       \<and> (\<forall>e' \<in> e_pk ` set (exams db).
            filter (\<lambda>m. m_exam m = e')
                   (measurements (fst (periodontal_exam_create col_ok to_date now req pid db)))
              = filter (\<lambda>m. m_exam m = e') (measurements db))"
proof -
  let ?f = "fresh_pk (map e_pk (exams db))"
  let ?ks = "takeWhile (\<lambda>k. \<not> refused col_ok (POST req) k) combinations"
  have changed: "fst (periodontal_exam_create col_ok to_date now req pid db) \<noteq> db"
    using assms(2,3) by auto
  then obtain s d where c: "user req \<noteq> None" "\<exists>p \<in> set (patients db). p_pk p = Some pid"
      "http_method req = ''POST''" "POST req ''exam_date'' = Some s" "to_date s = Some d"
    using create_cases [of req db pid to_date col_ok now] by blast
  note run = create_with_date
    [where to_date = to_date and s = s and now = now and col_ok = col_ok, OF c assms(1)]
  have ex: "e_pk ` set (exams (fst (periodontal_exam_create col_ok to_date now req pid db)))
              = insert ?f (e_pk ` set (exams db))"
    unfolding run by simp
  have ms: "measurements (fst (periodontal_exam_create col_ok to_date now req pid db))
              = measurements db @ rows_of (POST req) ?f ?ks"
    unfolding run by simp
  have e: "e = ?f" using assms(2,3) ex by auto
  have old: "filter (\<lambda>m. m_exam m = ?f) (measurements db) = []"
    using fresh_exam_no_rows [OF assms(1)] by (auto simp: filter_empty_conv)
  have rows: "filter (\<lambda>m. m_exam m = e)
                 (measurements (fst (periodontal_exam_create col_ok to_date now req pid db)))
              = rows_of (POST req) ?f ?ks"
    unfolding ms e by (simp add: old filter_rows_of_same)
  have keys: "map key_of (rows_of (POST req) ?f ?ks) = filter (\<lambda>k. entry (POST req) k \<noteq> None) ?ks"
    by (rule keys_rows_of)
  have sub: "set (filter (\<lambda>k. entry (POST req) k \<noteq> None) ?ks) \<subseteq> set combinations"
    using set_takeWhileD by fastforce
  have dis: "distinct (filter (\<lambda>k. entry (POST req) k \<noteq> None) ?ks)"
    using distinct_combinations by (simp add: distinct_takeWhile)
  have fk: "foreign_keys_ok (fst (periodontal_exam_create col_ok to_date now req pid db))"
    using assms(1) unfolding foreign_keys_ok_def ex ms by (auto simp: in_rows_of)
  have others: "filter (\<lambda>m. m_exam m = e')
                   (measurements (fst (periodontal_exam_create col_ok to_date now req pid db)))
              = filter (\<lambda>m. m_exam m = e') (measurements db)"
    if "e' \<in> e_pk ` set (exams db)" for e'
  proof -
    have "?f \<notin> e_pk ` set (exams db)"
      using fresh_pk_notin [of "map e_pk (exams db)"] by simp
    then have "e' \<noteq> ?f" using that by metis
    then show ?thesis unfolding ms by (simp add: filter_rows_of_other)
  qed
  show ?thesis
    unfolding rows keys using sub dis fk others card_key_space
    by (simp add: set_combinations)
qed

theorem measurement_key_invariant_witness:
  "distinct (map key_of (filter (\<lambda>m. m_exam m = 1)
      (measurements (fst (periodontal_exam_create example_col_ok example_to_date 5 example_request 1 example_db)))))
   \<and> map key_of (filter (\<lambda>m. m_exam m = 1)
      (measurements (fst (periodontal_exam_create example_col_ok example_to_date 5 example_request 1 example_db))))
     = [(18, ''buccal'', ''mesial''), (17, ''lingual'', ''distal'')]"
proof -
  have fk: "foreign_keys_ok example_db"
    by (simp add: example_db_ok)
  have new: "1 \<in> e_pk ` set (exams (fst (periodontal_exam_create example_col_ok example_to_date 5 example_request 1 example_db)))"
    unfolding example_create by simp
  have old: "1 \<notin> e_pk ` set (exams example_db)"
    by (simp add: example_db_def)
  from measurement_key_invariant [OF fk new old]
  have "distinct (map key_of (filter (\<lambda>m. m_exam m = 1)
      (measurements (fst (periodontal_exam_create example_col_ok example_to_date 5 example_request 1 example_db)))))"
    by blast
  moreover have "map key_of (filter (\<lambda>m. m_exam m = 1)
      (measurements (fst (periodontal_exam_create example_col_ok example_to_date 5 example_request 1 example_db))))
     = [(18, ''buccal'', ''mesial''), (17, ''lingual'', ''distal'')]"
    unfolding example_create by (simp add: key_of_def)
  ultimately show ?thesis by simp
qed

text \<open>
  C6, as the claim states it, fails: the view opens no transaction, so each row is
  committed when it is written. With the depth 3 for 18 buccal mesial and the depth
  \<open>x\<close> for 18 buccal middle the view raises ValueError at the second depth, and the exam
  row and the first measurement row are in the database.
\<close>

theorem exam_creation_atomicity_counterexample:
  "snd (periodontal_exam_create example_col_ok example_to_date 5 example_bad_request 1 example_db)
     = Create_raised ValueError
   \<and> exams (fst (periodontal_exam_create example_col_ok example_to_date 5 example_bad_request 1 example_db))
     = [\<lparr>e_pk = 1, e_patient = 1, exam_date = (2025, 1, 2), e_dentist = Some 7,
          e_notes = [], e_created_at = 5\<rparr>]
   \<and> measurements (fst (periodontal_exam_create example_col_ok example_to_date 5 example_bad_request 1 example_db))
     = [\<lparr>m_exam = 1, tooth_number = 18, position = ''mesial'', surface = ''buccal'',
          pocket_depth = 3, bleeding = False, calculus = False, mobility = None\<rparr>]
   \<and> fst (periodontal_exam_create example_col_ok example_to_date 5 example_bad_request 1 example_db) \<noteq> example_db"
  unfolding example_bad_create by (simp add: example_db_def)

text \<open>
  C6, amended. For a logged-in POST for an existing patient, with the foreign key of
  the measurement table intact: when the exam date is missing or is no date, the view
  raises and the database is unchanged. Otherwise the exam row is written, and after it
  one measurement row for each combination with an entry, in the order of the loops, up
  to the first combination that is refused: one whose submitted depth is no integer, or
  is an integer outside of the range of the integer column. When there is such a
  combination the view raises there (ValueError for the depth that is no integer, the
  range error of the insert otherwise) and the rows written so far stay; when there is
  none the view redirects to the new exam. Viewing a chart adds either no tooth row or
  all 32, and touches no other table.
\<close>

theorem exam_creation_commits_row_by_row:
  assumes "user req \<noteq> None" and "\<exists>p \<in> set (patients db). p_pk p = Some pid"
    and "http_method req = ''POST''" and "foreign_keys_ok db"
  shows "((POST req ''exam_date'' = None \<or> (\<exists>s. POST req ''exam_date'' = Some s \<and> to_date s = None)) \<longrightarrow>
            fst (periodontal_exam_create col_ok to_date now req pid db) = db
            \<and> (\<exists>e. snd (periodontal_exam_create col_ok to_date now req pid db) = Create_raised e))
       \<and> (\<forall>s d. POST req ''exam_date'' = Some s \<and> to_date s = Some d \<longrightarrow>
            (\<exists>exam. e_pk exam = fresh_pk (map e_pk (exams db)) \<and> e_patient exam = pid
               \<and> exam_date exam = d
               \<and> fst (periodontal_exam_create col_ok to_date now req pid db)
                   = db\<lparr>exams := exams db @ [exam],
                        measurements := measurements db @
                          rows_of (POST req) (e_pk exam)
                            (takeWhile (\<lambda>k. \<not> refused col_ok (POST req) k) combinations)\<rparr>
               \<and> snd (periodontal_exam_create col_ok to_date now req pid db)
                   = (case find (refused col_ok (POST req)) combinations of
                        None \<Rightarrow> Create_redirect (e_pk exam)
                      | Some k \<Rightarrow> if malformed (POST req) k then Create_raised ValueError
                                  else Create_raised OverflowError)))
       \<and> (fst (patient_detail now' req' pid' db) = db
           \<or> (\<exists>new. length new = 32
                 \<and> fst (patient_detail now' req' pid' db) = db\<lparr>teeth := teeth db @ new\<rparr>))"
proof (intro conjI impI allI)
  assume "POST req ''exam_date'' = None \<or> (\<exists>s. POST req ''exam_date'' = Some s \<and> to_date s = None)"
  from create_no_date [where to_date = to_date and now = now and col_ok = col_ok, OF assms(1-3) this]
  show "fst (periodontal_exam_create col_ok to_date now req pid db) = db"
    and "\<exists>e. snd (periodontal_exam_create col_ok to_date now req pid db) = Create_raised e"
    by simp_all
next
  fix s d
  assume "POST req ''exam_date'' = Some s \<and> to_date s = Some d"
  then have sd: "POST req ''exam_date'' = Some s" "to_date s = Some d" by simp_all
  let ?exam = "\<lparr>e_pk = fresh_pk (map e_pk (exams db)), e_patient = pid, exam_date = d,
              e_dentist = user req,
              e_notes = (case POST req ''notes'' of None \<Rightarrow> [] | Some n \<Rightarrow> n),
              e_created_at = now\<rparr>"
  note run = create_with_date
    [where to_date = to_date and s = s and now = now and col_ok = col_ok, OF assms(1-3) sd assms(4)]
  show "\<exists>exam. e_pk exam = fresh_pk (map e_pk (exams db)) \<and> e_patient exam = pid
               \<and> exam_date exam = d
               \<and> fst (periodontal_exam_create col_ok to_date now req pid db)
                   = db\<lparr>exams := exams db @ [exam],
                        measurements := measurements db @
                          rows_of (POST req) (e_pk exam)
                            (takeWhile (\<lambda>k. \<not> refused col_ok (POST req) k) combinations)\<rparr>
               \<and> snd (periodontal_exam_create col_ok to_date now req pid db)
                   = (case find (refused col_ok (POST req)) combinations of
                        None \<Rightarrow> Create_redirect (e_pk exam)
                      | Some k \<Rightarrow> if malformed (POST req) k then Create_raised ValueError
                                  else Create_raised OverflowError)"
    by (rule exI [of _ ?exam]) (simp add: run refusal_def split: option.splits)
next
  show "fst (patient_detail now' req' pid' db) = db
           \<or> (\<exists>new. length new = 32
                 \<and> fst (patient_detail now' req' pid' db) = db\<lparr>teeth := teeth db @ new\<rparr>)"
    by (rule patient_detail_all_or_nothing)
qed

theorem exam_creation_commits_row_by_row_witness:
  "periodontal_exam_create example_col_ok example_to_date 5 example_bad_request 1 example_db
   = (\<lparr>patients = [\<lparr>p_pk = Some 1, patient_id = ''P20250001''\<rparr>], teeth = [],
       exams = [\<lparr>e_pk = 1, e_patient = 1, exam_date = (2025, 1, 2), e_dentist = Some 7,
                 e_notes = [], e_created_at = 5\<rparr>],
       measurements =
         [\<lparr>m_exam = 1, tooth_number = 18, position = ''mesial'', surface = ''buccal'',
           pocket_depth = 3, bleeding = False, calculus = False, mobility = None\<rparr>]\<rparr>,
      Create_raised ValueError)"
proof -
  have a: "user example_bad_request \<noteq> None" "http_method example_bad_request = ''POST''"
    "\<exists>p \<in> set (patients example_db). p_pk p = Some 1"
    by (simp_all add: example_bad_request_def example_db_def)
  have fk: "foreign_keys_ok example_db" by (simp add: example_db_ok)
  have sd: "POST example_bad_request ''exam_date'' = Some ''2025-01-02''
            \<and> example_to_date ''2025-01-02'' = Some (2025, 1, 2)"
    by (simp add: example_bad_request_def example_to_date_def)
  from exam_creation_commits_row_by_row
         [OF a(1) a(3) a(2) fk, of example_to_date example_col_ok 5] sd
  obtain exam where exam: "e_pk exam = fresh_pk (map e_pk (exams example_db))"
    "fst (periodontal_exam_create example_col_ok example_to_date 5 example_bad_request 1 example_db)
       = example_db\<lparr>exams := exams example_db @ [exam],
            measurements := measurements example_db @
              rows_of (POST example_bad_request) (e_pk exam)
                (takeWhile (\<lambda>k. \<not> refused example_col_ok (POST example_bad_request) k) combinations)\<rparr>"
    by blast
  then show ?thesis
    unfolding example_bad_create by (simp add: example_db_def)
qed

section \<open>Assembling the grid\<close>


lemma slot_empty: "slot Map.empty k = None"
  by (simp add: slot_def)

lemma organize_step:
  assumes "shaped g" and "surface m \<in> set surfaces"
  shows "\<exists>g'. organize (m # ms) g = organize ms g' \<and> shaped g'
           \<and> dom g' = insert (tooth_number m) (dom g)
           \<and> slot g' (key_of m) = Some m
           \<and> (\<forall>k. k \<noteq> key_of m \<longrightarrow> slot g' k = slot g k)"
proof -
  define t where "t = tooth_number m"
  define g1 where "g1 = (if g t = None then g(t \<mapsto> empty_tooth) else g)"
  have sh1: "shaped g1"
    using assms(1) by (auto simp: g1_def shaped_def empty_tooth_def surfaces_def split: if_splits)
  have sl1: "slot g1 k = slot g k" for k
    by (auto simp: g1_def slot_def empty_tooth_def split: option.splits if_splits)
  have dom1: "dom g1 = insert t (dom g)"
    by (auto simp: g1_def split: if_splits)
  obtain bs where bs: "g1 t = Some bs" by (cases "g t") (auto simp: g1_def)
  then have dbs: "dom bs = set surfaces" using sh1 by (simp add: shaped_def)
  then obtain bp where bp: "bs (surface m) = Some bp"
    using assms(2) by blast
  define g' where "g' = g1(t \<mapsto> bs(surface m \<mapsto> bp(position m \<mapsto> Some m)))"
  have "organize (m # ms) g =
          (case g1 t of
             None \<Rightarrow> Inl KeyError
           | Some by_surface \<Rightarrow>
              (case by_surface (surface m) of
                 None \<Rightarrow> Inl KeyError
               | Some by_position \<Rightarrow>
                   organize ms
                     (g1(t \<mapsto> by_surface(surface m \<mapsto> by_position(position m \<mapsto> Some m))))))"
    unfolding g1_def t_def by (simp only: organize.simps Let_def)
  then have run: "organize (m # ms) g = organize ms g'"
    by (simp only: bs bp g'_def option.case)
  have sh': "shaped g'"
    unfolding shaped_def
  proof (intro allI impI)
    fix u by_surface
    assume a: "g' u = Some by_surface"
    show "dom by_surface = set surfaces"
    proof (cases "u = t")
      case True
      then have "by_surface = bs(surface m \<mapsto> bp(position m \<mapsto> Some m))"
        using a by (simp add: g'_def)
      then have "dom by_surface = insert (surface m) (dom bs)"
        by simp
      then show ?thesis
        using dbs assms(2) by (simp add: insert_absorb)
    next
      case False
      then have "g1 u = Some by_surface"
        using a by (simp add: g'_def)
      from sh1 [unfolded shaped_def, rule_format, OF this] show ?thesis .
    qed
  qed
  have dom': "dom g' = insert (tooth_number m) (dom g)"
    by (simp add: g'_def dom1 t_def)
  have here: "slot g' (key_of m) = Some m"
    by (simp add: slot_def key_of_def g'_def t_def)
  have other: "slot g' k = slot g k" if "k \<noteq> key_of m" for k
  proof -
    obtain a b c where k: "k = (a, b, c)" by (cases k) auto
    have "slot g' k = slot g1 k"
    proof (cases "a = t")
      case False
      then show ?thesis by (simp add: slot_def g'_def k)
    next
      case True
      show ?thesis
      proof (cases "b = surface m")
        case False
        then show ?thesis using True bs by (simp add: slot_def g'_def k)
      next
        case bT: True
        then have "c \<noteq> position m" using that True by (simp add: k key_of_def t_def)
        then show ?thesis using True bT bs bp by (simp add: slot_def g'_def k)
      qed
    qed
    then show ?thesis by (simp only: sl1)
  qed
  show ?thesis
    using run sh' dom' here other by blast
qed


lemma organize_char:
  assumes "shaped g" and "\<forall>m \<in> set ms. surface m \<in> set surfaces"
    and "distinct (map key_of ms)"
  shows "\<exists>g'. organize ms g = Inr g' \<and> dom g' = dom g \<union> tooth_number ` set ms
           \<and> (\<forall>m \<in> set ms. slot g' (key_of m) = Some m)
           \<and> (\<forall>k. k \<notin> key_of ` set ms \<longrightarrow> slot g' k = slot g k)"
  using assms
proof (induction ms arbitrary: g)
  case Nil
  then show ?case by simp
next
  case (Cons m ms)
  obtain g1 where g1: "organize (m # ms) g = organize ms g1" "shaped g1"
      "dom g1 = insert (tooth_number m) (dom g)" "slot g1 (key_of m) = Some m"
      "\<forall>k. k \<noteq> key_of m \<longrightarrow> slot g1 k = slot g k"
    using organize_step [of g m ms] Cons.prems by auto
  have "\<forall>m \<in> set ms. surface m \<in> set surfaces" "distinct (map key_of ms)"
    using Cons.prems by auto
  from Cons.IH [OF g1(2) this]
  obtain g' where g': "organize ms g1 = Inr g'" "dom g' = dom g1 \<union> tooth_number ` set ms"
      "\<forall>m \<in> set ms. slot g' (key_of m) = Some m"
      "\<forall>k. k \<notin> key_of ` set ms \<longrightarrow> slot g' k = slot g1 k"
    by blast
  have notin: "key_of m \<notin> key_of ` set ms"
    using Cons.prems(3) by auto
  have "organize (m # ms) g = Inr g'" using g1(1) g'(1) by simp
  moreover have "dom g' = dom g \<union> tooth_number ` set (m # ms)"
    using g'(2) g1(3) by auto
  moreover have "slot g' (key_of m) = Some m"
    using g'(4) [rule_format, OF notin] g1(4) by simp
  then have "\<forall>x \<in> set (m # ms). slot g' (key_of x) = Some x"
    using g'(3) by simp
  moreover have "\<forall>k. k \<notin> key_of ` set (m # ms) \<longrightarrow> slot g' k = slot g k"
  proof (intro allI impI)
    fix k assume "k \<notin> key_of ` set (m # ms)"
    then have "k \<notin> key_of ` set ms" "k \<noteq> key_of m" by auto
    then show "slot g' k = slot g k"
      using g'(4) [rule_format, of k] g1(5) [rule_format, of k] by simp
  qed
  ultimately show ?case by blast
qed


lemma distinct_keys_measurements_of:
  assumes "distinct (map key_of (filter (\<lambda>m. m_exam m = e) (measurements db)))"
  shows "distinct (map key_of (measurements_of e db))"
  using assms by (simp add: measurements_of_def distinct_map)





section \<open>The comparison exam\<close>





end
